theory Spec2Isabelle
  imports Complex_Main "HOL-Library.Word" "HOL-Library.Sublist"
begin

chapter \<open>The model\<close>

section \<open>Demo content identifiers of the IPFS upload module\<close>

text \<open>
  Source: \<^verbatim>\<open>v3/@claude-flow/cli/src/transfer/ipfs/upload.ts\<close>.  A \<^verbatim>\<open>Buffer\<close> is a list of
  bytes.  The SHA-256 digest comes from Node's \<^verbatim>\<open>crypto\<close> module, which is not code of
  the repository: it is the parameter \<open>sha256\<close> of the model, an arbitrary function from
  byte lists to byte lists.
\<close>

type_synonym byte = "8 word"

definition base32Chars :: string where
  "base32Chars = ''abcdefghijklmnopqrstuvwxyz234567''"

definition cid_prefix :: "byte list" where
  "cid_prefix = [0x01, 0x70, 0x12, 0x20]"

text \<open>\<^verbatim>\<open>cidBytes[j] || 0\<close>: an index past the end reads \<^verbatim>\<open>undefined\<close>, which becomes 0.\<close>

definition byte_or_zero :: "byte list \<Rightarrow> nat \<Rightarrow> byte" where
  "byte_or_zero bs j = (if j < length bs then bs ! j else 0)"

text \<open>
  The body of \<^verbatim>\<open>for (let i = 0; i < 44; i++)\<close>, started at \<open>i\<close> with the string built
  so far.
\<close>

function cid_loop :: "byte list \<Rightarrow> nat \<Rightarrow> string \<Rightarrow> string" where
  "cid_loop cidBytes i result =
     (if i < 44
      then cid_loop cidBytes (i + 1)
             (result @ [base32Chars ! (unat (byte_or_zero cidBytes (i mod length cidBytes)) mod 32)])
      else result)"
  by pat_completeness auto
termination
  by (relation "measure (\<lambda>(cidBytes, i, result). 44 - i)") auto

declare cid_loop.simps [simp del]

definition generateDemoCID :: "(byte list \<Rightarrow> byte list) \<Rightarrow> byte list \<Rightarrow> string" where
  "generateDemoCID sha256 content =
     (let hash = sha256 content;
          cidBytes = cid_prefix @ hash
      in cid_loop cidBytes 0 ''bafybei'')"

text \<open>
  The environment variables \<^verbatim>\<open>uploadToIPFS\<close> reads, and its options.  A variable that is
  unset is \<open>None\<close>; JavaScript treats the empty string as false as well.
\<close>

record ipfs_env =
  IPFS_API_URL :: "string option"
  WEB3_STORAGE_TOKEN :: "string option"
  W3_TOKEN :: "string option"
  IPFS_TOKEN :: "string option"
  PINATA_API_KEY :: "string option"

record IPFSUploadOptions =
  pin :: "bool option"
  pinningService :: "string option"
  gateway :: "string option"
  name :: "string option"

record IPFSUploadResult =
  cid :: string
  result_size :: nat
  result_gateway :: string
  pinnedAt :: "string option"
  url :: string

definition truthy :: "string option \<Rightarrow> bool" where
  "truthy v = (case v of None \<Rightarrow> False | Some s \<Rightarrow> s \<noteq> [])"

text \<open>\<^verbatim>\<open>a || b || c\<close> on strings: the first truthy operand, else the last one.\<close>

definition getWeb3StorageToken :: "ipfs_env \<Rightarrow> string option" where
  "getWeb3StorageToken env =
     (if truthy (WEB3_STORAGE_TOKEN env) then WEB3_STORAGE_TOKEN env
      else if truthy (W3_TOKEN env) then W3_TOKEN env
      else IPFS_TOKEN env)"

text \<open>The disabled remote paths: each one throws, or answers that no node is there.\<close>

definition uploadToWeb3Storage :: "byte list \<Rightarrow> IPFSUploadOptions \<Rightarrow> string + IPFSUploadResult" where
  "uploadToWeb3Storage content options =
     Inl ''[SECURITY] Remote upload to web3.storage is disabled by security patch. Use local file export instead.''"

definition uploadToPinata :: "byte list \<Rightarrow> IPFSUploadOptions \<Rightarrow> string + IPFSUploadResult" where
  "uploadToPinata content options =
     Inl ''[SECURITY] Remote upload to Pinata is disabled by security patch. Use local file export instead.''"

definition uploadToLocalIPFS :: "byte list \<Rightarrow> IPFSUploadOptions \<Rightarrow> string + IPFSUploadResult" where
  "uploadToLocalIPFS content options =
     Inl ''[SECURITY] Remote upload to IPFS node is disabled by security patch. Use local file export instead.''"

definition checkLocalIPFSNode :: bool where
  "checkLocalIPFSNode = False"

text \<open>The fall-back of \<^verbatim>\<open>uploadToIPFS\<close>; \<open>now\<close> is \<^verbatim>\<open>new Date().toISOString()\<close>.\<close>

definition demo_upload ::
  "(byte list \<Rightarrow> byte list) \<Rightarrow> string \<Rightarrow> byte list \<Rightarrow> IPFSUploadOptions \<Rightarrow> IPFSUploadResult" where
  "demo_upload sha256 now content options =
     (let pin' = (case pin options of None \<Rightarrow> True | Some b \<Rightarrow> b);
          gateway' = (case gateway options of None \<Rightarrow> ''local'' | Some g \<Rightarrow> g);
          cid' = generateDemoCID sha256 content
      in \<lparr> cid = cid',
           result_size = length content,
           result_gateway = gateway',
           pinnedAt = (if pin' then Some now else None),
           url = gateway' @ ''/ipfs/'' @ cid' \<rparr>)"

text \<open>
  \<^verbatim>\<open>uploadToIPFS\<close>, with each \<^verbatim>\<open>try { return await ... } catch { console.warn }\<close> as a case
  on the outcome of the call: a result is returned, an error falls through to the next
  step.  Console output is left out.
\<close>

definition try_web3 ::
  "(byte list \<Rightarrow> byte list) \<Rightarrow> ipfs_env \<Rightarrow> string \<Rightarrow> byte list \<Rightarrow> IPFSUploadOptions \<Rightarrow> IPFSUploadResult" where
  "try_web3 sha256 env now content options =
     (if truthy (getWeb3StorageToken env) \<or> pinningService options = Some ''web3storage''
      then (case uploadToWeb3Storage content options of
              Inr r \<Rightarrow> r
            | Inl err \<Rightarrow> demo_upload sha256 now content options)
      else demo_upload sha256 now content options)"

definition try_pinata ::
  "(byte list \<Rightarrow> byte list) \<Rightarrow> ipfs_env \<Rightarrow> string \<Rightarrow> byte list \<Rightarrow> IPFSUploadOptions \<Rightarrow> IPFSUploadResult" where
  "try_pinata sha256 env now content options =
     (if pinningService options = Some ''pinata''
         \<or> (truthy (PINATA_API_KEY env) \<and> \<not> truthy (getWeb3StorageToken env))
      then (case uploadToPinata content options of
              Inr r \<Rightarrow> r
            | Inl err \<Rightarrow> try_web3 sha256 env now content options)
      else try_web3 sha256 env now content options)"

definition uploadToIPFS ::
  "(byte list \<Rightarrow> byte list) \<Rightarrow> ipfs_env \<Rightarrow> string \<Rightarrow> byte list \<Rightarrow> IPFSUploadOptions \<Rightarrow> IPFSUploadResult" where
  "uploadToIPFS sha256 env now content options =
     (if truthy (IPFS_API_URL env) \<or> pinningService options = Some ''local''
      then (if checkLocalIPFSNode
            then (case uploadToLocalIPFS content options of
                    Inr r \<Rightarrow> r
                  | Inl err \<Rightarrow> try_pinata sha256 env now content options)
            else try_pinata sha256 env now content options)
      else try_pinata sha256 env now content options)"

section \<open>The update executor\<close>

text \<open>
  Source: \<^verbatim>\<open>src/unnamed/part_004\<close> (the update executor).  \<^verbatim>\<open>validateUpdate\<close> and the types
  \<^verbatim>\<open>UpdateCheckResult\<close> and \<^verbatim>\<open>ValidationResult\<close> live in modules that are not among the
  sources; the records below hold the fields the executor reads, and \<open>validateUpdate\<close> is
  a parameter of the model.
\<close>

record UpdateCheckResult =
  package :: string
  currentVersion :: string
  latestVersion :: string
  priority :: string

record ValidationResult =
  valid :: bool
  incompatibilities :: "string list"

record UpdateHistoryEntry =
  timestamp :: string
  h_package :: string
  fromVersion :: string
  toVersion :: string
  h_success :: bool
  h_error :: "string option"
  rollbackAvailable :: bool

record UpdateExecutionResult =
  success :: bool
  r_package :: string
  version :: string
  error :: "string option"
  validation :: ValidationResult

record RollbackResult =
  rb_success :: bool
  message :: string

text \<open>
  What \<^verbatim>\<open>JSON.parse\<close> can give: the executor casts the parsed history file to an array of
  entries without looking at it, so the value it works on is any JSON value.  An object
  lists its members, each name once.
\<close>

datatype json =
    JNull
  | JBool bool
  | JNum real
  | JStr string
  | JArr "json list"
  | JObj "(string \<times> json) list"

text \<open>
  The errors that leave the executor: a \<^verbatim>\<open>TypeError\<close> of the language (a property read of
  \<^verbatim>\<open>null\<close>, a call of something that is no function), and an error of the file system
  (\<^verbatim>\<open>mkdirSync\<close> or \<^verbatim>\<open>writeFileSync\<close> throwing).
\<close>

datatype js_error = TypeError | FsError

text \<open>
  What the executor can touch: the history file (missing; unreadable, which is a read or
  a parse that throws; or holding a JSON value), whether the history file can be written
  (the directory can be made and the file written), the console, and the shell (the
  commands handed to \<^verbatim>\<open>execSync\<close>).  A console line is a string, or the line of
  \<^verbatim>\<open>rollbackUpdate\<close> with the two values it interpolates.
\<close>

datatype history_file = NoFile | Unreadable | Parsed json

datatype console_line = Printed string | RollbackHint "json option" "json option"

record exec_world =
  history :: history_file
  history_writable :: bool
  console :: "console_line list"
  shell_commands :: "string list"

definition MAX_HISTORY_ENTRIES :: nat where
  "MAX_HISTORY_ENTRIES = 100"

text \<open>\<^verbatim>\<open>Array.prototype.join\<close>.\<close>

fun join :: "string \<Rightarrow> string list \<Rightarrow> string" where
  "join sep [] = []"
| "join sep [x] = x"
| "join sep (x # y # ys) = x @ sep @ join sep (y # ys)"

text \<open>
  Reading a property of a value that is not \<^verbatim>\<open>null\<close>, for the names the executor reads
  from an element of the history (\<^verbatim>\<open>package\<close>, \<^verbatim>\<open>success\<close>, \<^verbatim>\<open>rollbackAvailable\<close>,
  \<^verbatim>\<open>fromVersion\<close>): an object gives the member or \<^verbatim>\<open>undefined\<close> (\<open>None\<close>), any other
  value gives \<^verbatim>\<open>undefined\<close>.
\<close>

definition field :: "json \<Rightarrow> string \<Rightarrow> json option" where
  "field v prop = (case v of JObj members \<Rightarrow> map_of members prop | _ \<Rightarrow> None)"

text \<open>Whether a value read from a property counts as true in a condition.\<close>

definition truthy_json :: "json option \<Rightarrow> bool" where
  "truthy_json v =
     (case v of
        None \<Rightarrow> False
      | Some JNull \<Rightarrow> False
      | Some (JBool b) \<Rightarrow> b
      | Some (JNum x) \<Rightarrow> x \<noteq> 0
      | Some (JStr s) \<Rightarrow> s \<noteq> []
      | Some (JArr xs) \<Rightarrow> True
      | Some (JObj members) \<Rightarrow> True)"

text \<open>
  \<^verbatim>\<open>history.length === 0\<close> on the value \<^verbatim>\<open>loadHistory\<close> returned: \<^verbatim>\<open>null\<close> throws, an array
  and a string have their length, an object has a \<^verbatim>\<open>length\<close> only as a member, a number
  and a boolean have none.
\<close>

definition length_is_zero :: "json \<Rightarrow> js_error + bool" where
  "length_is_zero v =
     (case v of
        JNull \<Rightarrow> Inl TypeError
      | JArr xs \<Rightarrow> Inr (xs = [])
      | JStr s \<Rightarrow> Inr (s = [])
      | JObj members \<Rightarrow> Inr (map_of members ''length'' = Some (JNum 0))
      | JBool b \<Rightarrow> Inr False
      | JNum x \<Rightarrow> Inr False)"

text \<open>The entry \<^verbatim>\<open>recordUpdate\<close> is given, as the object that is pushed and written.\<close>

definition entry_json :: "UpdateHistoryEntry \<Rightarrow> json" where
  "entry_json e =
     JObj ([(''timestamp'', JStr (timestamp e)),
            (''package'', JStr (h_package e)),
            (''fromVersion'', JStr (fromVersion e)),
            (''toVersion'', JStr (toVersion e)),
            (''success'', JBool (h_success e))]
           @ (case h_error e of None \<Rightarrow> [] | Some msg \<Rightarrow> [(''error'', JStr msg)])
           @ [(''rollbackAvailable'', JBool (rollbackAvailable e))])"

text \<open>
  \<^verbatim>\<open>loadHistory\<close>: a missing file, and a read or a parse that throws, give the empty array;
  otherwise the parsed value is returned as it is.
\<close>

definition loadHistory :: "exec_world \<Rightarrow> json" where
  "loadHistory w = (case history w of Parsed v \<Rightarrow> v | NoFile \<Rightarrow> JArr [] | Unreadable \<Rightarrow> JArr [])"

text \<open>
  \<^verbatim>\<open>saveHistory\<close> of an array: \<^verbatim>\<open>history.slice(-MAX_HISTORY_ENTRIES)\<close> keeps the last entries;
  \<^verbatim>\<open>ensureDir\<close> and \<^verbatim>\<open>writeFileSync\<close> throw when the file cannot be written.
\<close>

definition saveHistory :: "json list \<Rightarrow> exec_world \<Rightarrow> js_error + exec_world" where
  "saveHistory h w =
     (if history_writable w
      then Inr (w\<lparr>history := Parsed (JArr (drop (length h - MAX_HISTORY_ENTRIES) h))\<rparr>)
      else Inl FsError)"

text \<open>
  \<^verbatim>\<open>recordUpdate\<close>: \<^verbatim>\<open>history.push(entry)\<close> works on an array only; on any other JSON value
  \<^verbatim>\<open>push\<close> is no function (or the value is \<^verbatim>\<open>null\<close>), which throws.
\<close>

definition recordUpdate :: "UpdateHistoryEntry \<Rightarrow> exec_world \<Rightarrow> js_error + exec_world" where
  "recordUpdate entry w =
     (case loadHistory w of
        JArr h \<Rightarrow> saveHistory (h @ [entry_json entry]) w
      | _ \<Rightarrow> Inl TypeError)"

definition update_blocked_message :: string where
  "update_blocked_message = ''[SECURITY] Auto-update execution blocked. Manual installation required.''"

definition rollback_blocked_message :: string where
  "rollback_blocked_message = ''[SECURITY] Auto-rollback execution blocked. Manual installation required.''"

text \<open>
  \<^verbatim>\<open>executeUpdate\<close>; \<open>now\<close> is \<^verbatim>\<open>new Date().toISOString()\<close>.  The outcome is the result
  returned (\<open>Inr\<close>) or the error the call rejects with (\<open>Inl\<close>).  In the \<^verbatim>\<open>try\<close> block the
  source prints the manual command and throws; the \<^verbatim>\<open>catch\<close> block records the failure
  and returns it, and an error of \<^verbatim>\<open>recordUpdate\<close> inside the \<^verbatim>\<open>catch\<close> block leaves the call.
  The statements after the \<^verbatim>\<open>throw\<close> are never reached.
\<close>

definition executeUpdate ::
  "(string \<Rightarrow> string \<Rightarrow> string \<Rightarrow> (string \<rightharpoonup> string) \<Rightarrow> ValidationResult) \<Rightarrow> string
    \<Rightarrow> UpdateCheckResult \<Rightarrow> (string \<rightharpoonup> string) \<Rightarrow> bool \<Rightarrow> exec_world
    \<Rightarrow> (js_error + UpdateExecutionResult) \<times> exec_world" where
  "executeUpdate validateUpdate now update installedPackages dryRun w =
     (let validation' = validateUpdate (package update) (currentVersion update)
                          (latestVersion update) installedPackages
      in if \<not> valid validation'
         then (Inr \<lparr> success = False, r_package = package update, version = latestVersion update,
                  error = Some (''Validation failed: '' @ join '', '' (incompatibilities validation')),
                  validation = validation' \<rparr>, w)
         else if dryRun
         then (Inr \<lparr> success = True, r_package = package update, version = latestVersion update,
                  error = None, validation = validation' \<rparr>, w)
         else
           (let installCmd = ''npm install '' @ package update @ ''@'' @ latestVersion update
                               @ '' --save-exact'';
                w1 = w\<lparr>console := console w @
                       [Printed (''[SECURITY] Automatic npm install is DISABLED. To update manually, run:''
                        @ [CHR 0x0A] @ ''  '' @ installCmd)]\<rparr>;
                err = update_blocked_message
            in (case recordUpdate
                       \<lparr> timestamp = now, h_package = package update,
                         fromVersion = currentVersion update, toVersion = latestVersion update,
                         h_success = False, h_error = Some err, rollbackAvailable = False \<rparr> w1 of
                  Inl thrown \<Rightarrow> (Inl thrown, w1)
                | Inr w2 \<Rightarrow>
                    (Inr \<lparr> success = False, r_package = package update,
                       version = latestVersion update, error = Some err,
                       validation = validation' \<rparr>, w2))))"

text \<open>
  The callback of \<^verbatim>\<open>find\<close> in \<^verbatim>\<open>rollbackUpdate\<close>, on an element that is not \<^verbatim>\<open>null\<close>.
  \<^verbatim>\<open>packageName ? ... : ...\<close> takes an absent and an empty name alike.
\<close>

definition rollback_candidate :: "string option \<Rightarrow> json \<Rightarrow> bool" where
  "rollback_candidate packageName h =
     (if truthy packageName
      then (case packageName of
              None \<Rightarrow> False
            | Some p \<Rightarrow> field h ''package'' = Some (JStr p))
           \<and> truthy_json (field h ''success'') \<and> truthy_json (field h ''rollbackAvailable'')
      else truthy_json (field h ''success'') \<and> truthy_json (field h ''rollbackAvailable''))"

text \<open>
  Whether converting a value to a string throws, as the template string of
  \<^verbatim>\<open>rollbackUpdate\<close> converts what it interpolates.  An object that has a member named
  \<^verbatim>\<open>toString\<close> throws: the member hides the method of the prototype and is no function,
  and \<^verbatim>\<open>valueOf\<close> gives no primitive.  Any other object is \<^verbatim>\<open>[object Object]\<close>.  An array
  joins the strings of its elements, so it throws when one of them does.
\<close>

fun toString_throws :: "json \<Rightarrow> bool" where
  "toString_throws (JObj members) = (map_of members ''toString'' \<noteq> None)"
| "toString_throws (JArr xs) = list_ex toString_throws xs"
| "toString_throws JNull = False"
| "toString_throws (JBool b) = False"
| "toString_throws (JNum x) = False"
| "toString_throws (JStr s) = False"

text \<open>The same for a property that was read: \<^verbatim>\<open>undefined\<close> converts without an error.\<close>

definition interpolation_throws :: "json option \<Rightarrow> bool" where
  "interpolation_throws v = (case v of None \<Rightarrow> False | Some x \<Rightarrow> toString_throws x)"

text \<open>
  \<^verbatim>\<open>find\<close> with that callback: the first element that matches; the callback throws on an
  element that is \<^verbatim>\<open>null\<close>, at its first property read.
\<close>

fun find_candidate :: "string option \<Rightarrow> json list \<Rightarrow> js_error + json option" where
  "find_candidate packageName [] = Inr None"
| "find_candidate packageName (h # hs) =
     (if h = JNull then Inl TypeError
      else if rollback_candidate packageName h then Inr (Some h)
      else find_candidate packageName hs)"

text \<open>
  \<^verbatim>\<open>rollbackUpdate\<close>.  \<^verbatim>\<open>history.reverse()\<close> works on an array only; on any other value that
  got past the length test it is no function, which throws.
  \<^verbatim>\<open>history.reverse().find(...)\<close> is the last element of the history that matches.  The
  manual command is built from its \<^verbatim>\<open>package\<close> and its \<^verbatim>\<open>fromVersion\<close>, which throws when
  one of the two cannot be converted to a string.
\<close>

definition rollbackUpdate ::
  "string option \<Rightarrow> exec_world \<Rightarrow> (js_error + RollbackResult) \<times> exec_world" where
  "rollbackUpdate packageName w =
     (let history' = loadHistory w
      in (case length_is_zero history' of
            Inl thrown \<Rightarrow> (Inl thrown, w)
          | Inr zero \<Rightarrow>
              if zero
              then (Inr \<lparr> rb_success = False, message = ''No update history available'' \<rparr>, w)
              else (case history' of
                      JArr hs \<Rightarrow>
                        (case find_candidate packageName (rev hs) of
                           Inl thrown \<Rightarrow> (Inl thrown, w)
                         | Inr None \<Rightarrow>
                             (Inr \<lparr> rb_success = False,
                                message = (case packageName of
                                             None \<Rightarrow> ''No rollback available''
                                           | Some p \<Rightarrow> if p = [] then ''No rollback available''
                                                      else ''No rollback available for '' @ p) \<rparr>, w)
                         | Inr (Some lastUpdate) \<Rightarrow>
                             if interpolation_throws (field lastUpdate ''package'')
                                \<or> interpolation_throws (field lastUpdate ''fromVersion'')
                             then (Inl TypeError, w)
                             else (Inr \<lparr> rb_success = False, message = rollback_blocked_message \<rparr>,
                                   w\<lparr>console := console w @
                                       [RollbackHint (field lastUpdate ''package'')
                                          (field lastUpdate ''fromVersion'')]\<rparr>))
                    | _ \<Rightarrow> (Inl TypeError, w))))"

text \<open>
  An element of the history that has the shape of an \<^verbatim>\<open>UpdateHistoryEntry\<close> as far as
  \<^verbatim>\<open>rollbackUpdate\<close> reads it: an object whose \<^verbatim>\<open>package\<close> and \<^verbatim>\<open>fromVersion\<close> are strings.
\<close>

definition entry_shaped :: "json \<Rightarrow> bool" where
  "entry_shaped h =
     (case field h ''package'' of
        Some (JStr p) \<Rightarrow> (case field h ''fromVersion'' of Some (JStr v) \<Rightarrow> True | _ \<Rightarrow> False)
      | _ \<Rightarrow> False)"

section \<open>The security circuit breaker\<close>

text \<open>
  Source: \<^verbatim>\<open>src/unnamed/part_001\<close>.  \<^verbatim>\<open>new URL(url)\<close> is the platform's parser: the
  parameter \<open>parseURL\<close>, which gives \<open>None\<close> where the constructor throws.  The platform's
  \<^verbatim>\<open>fetch\<close> is a parameter too; what it returns (its promise, settled either way) is an
  arbitrary value of type \<open>'r\<close>.
\<close>

definition ALLOWED_DOMAINS :: "string list" where
  "ALLOWED_DOMAINS = [''api.anthropic.com'', ''anthropic.com'']"

record URL =
  href :: string
  hostname :: string

text \<open>\<^verbatim>\<open>String.prototype.endsWith\<close>.\<close>

definition endsWith :: "string \<Rightarrow> string \<Rightarrow> bool" where
  "endsWith s t = (length t \<le> length s \<and> drop (length s - length t) s = t)"

definition isUrlAllowed :: "(string \<Rightarrow> URL option) \<Rightarrow> string \<Rightarrow> bool" where
  "isUrlAllowed parseURL u =
     (case parseURL u of
        None \<Rightarrow> False
      | Some parsed \<Rightarrow>
          list_ex (\<lambda>domain. hostname parsed = domain \<or> endsWith (hostname parsed) (''.'' @ domain))
            ALLOWED_DOMAINS)"

text \<open>
  The argument of \<^verbatim>\<open>fetch\<close>: a string, a \<^verbatim>\<open>URL\<close> (read through \<^verbatim>\<open>toString()\<close>, its
  \<^verbatim>\<open>href\<close>) or a \<^verbatim>\<open>Request\<close> (read through its \<^verbatim>\<open>url\<close>).
\<close>

datatype fetch_input = InputString string | InputURL URL | InputRequest string

fun input_url :: "fetch_input \<Rightarrow> string" where
  "input_url (InputString s) = s"
| "input_url (InputURL u) = href u"
| "input_url (InputRequest request_url) = request_url"

text \<open>
  \<^verbatim>\<open>guardedFetch\<close>: \<open>Inl\<close> is the error it throws, \<open>Inr\<close> what the call of
  \<^verbatim>\<open>globalThis.fetch(input, init)\<close> gives back.
\<close>

definition guardedFetch ::
  "(string \<Rightarrow> URL option) \<Rightarrow> (fetch_input \<Rightarrow> 'i \<Rightarrow> 'r) \<Rightarrow> fetch_input \<Rightarrow> 'i \<Rightarrow> string + 'r" where
  "guardedFetch parseURL fetch input init =
     (let u = input_url input
      in if \<not> isUrlAllowed parseURL u
         then Inl (''[SECURITY CIRCUIT BREAKER] Blocked outbound request to non-whitelisted domain: ''
                   @ u @ [CHR 0x0A]
                   @ ''Allowed domains: '' @ join '', '' ALLOWED_DOMAINS @ [CHR 0x0A]
                   @ ''To allow this domain, add it to config/security-circuit-breaker.ts ALLOWED_DOMAINS.'')
         else Inr (fetch input init))"

section \<open>The MCP registry client\<close>

text \<open>
  Source: \<^verbatim>\<open>v2/src/mcp/registry/mcp-registry-client-2025.ts\<close>.  The world a client acts on
  is the logger's output, the requests sent to a remote registry, and whether the
  periodic health timer is set.  \<^verbatim>\<open>MCPVersion\<close> and \<^verbatim>\<open>MCPCapability\<close> come from a module that
  is not among the sources; they are strings here.
\<close>

datatype auth_method = bearer | mutual_tls | none

datatype health_status = healthy | degraded | unhealthy

record registry_metadata =
  md_name :: string
  description :: string
  author :: string
  homepage :: "string option"
  documentation :: "string option"
  repository :: "string option"

record registry_health =
  status :: health_status
  last_check :: string
  latency_ms :: nat

record MCPRegistryEntry =
  server_id :: string
  entry_version :: string
  endpoint :: string
  tools :: "string list"
  auth :: auth_method
  capabilities :: "string list"
  metadata :: registry_metadata
  health :: registry_health

record RegistrySearchQuery =
  category :: "string option"
  query_tags :: "string list option"
  query_capabilities :: "string list option"
  limit :: "nat option"

record RegistryConfig =
  enabled :: bool
  config_registryUrl :: "string option"
  apiKey :: "string option"
  serverId :: string
  serverEndpoint :: string
  authMethod :: auth_method
  config_metadata :: registry_metadata
  healthCheckInterval :: "nat option"

record MCPRegistryClient =
  config :: RegistryConfig
  registryUrl :: string

record registry_world =
  logger_info :: "string list"
  remote_requests :: "string list"
  health_timer :: bool

text \<open>The constructor: \<^verbatim>\<open>config.registryUrl || 'disabled://registry-blocked'\<close>.\<close>

definition new_MCPRegistryClient :: "RegistryConfig \<Rightarrow> MCPRegistryClient" where
  "new_MCPRegistryClient cfg =
     \<lparr> config = cfg,
       registryUrl = (case config_registryUrl cfg of
                        None \<Rightarrow> ''disabled://registry-blocked''
                      | Some u \<Rightarrow> if u = [] then ''disabled://registry-blocked'' else u) \<rparr>"

definition logger_info_call :: "string \<Rightarrow> registry_world \<Rightarrow> registry_world" where
  "logger_info_call msg w = w\<lparr>logger_info := logger_info w @ [msg]\<rparr>"

definition register :: "MCPRegistryClient \<Rightarrow> registry_world \<Rightarrow> registry_world" where
  "register c w = logger_info_call ''[SECURITY] Registry registration is disabled by security patch'' w"

definition updateMetadata :: "MCPRegistryClient \<Rightarrow> 'u \<Rightarrow> registry_world \<Rightarrow> registry_world" where
  "updateMetadata c updates w =
     logger_info_call ''[SECURITY] Registry metadata update is disabled by security patch'' w"

definition reportHealth :: "MCPRegistryClient \<Rightarrow> registry_world \<Rightarrow> registry_world" where
  "reportHealth c w = w"

definition searchServers ::
  "MCPRegistryClient \<Rightarrow> RegistrySearchQuery \<Rightarrow> registry_world \<Rightarrow> MCPRegistryEntry list \<times> registry_world" where
  "searchServers c query w =
     ([], logger_info_call ''[SECURITY] Registry search is disabled by security patch'' w)"

definition stopHealthReporting :: "MCPRegistryClient \<Rightarrow> registry_world \<Rightarrow> registry_world" where
  "stopHealthReporting c w =
     (if health_timer w
      then logger_info_call ''Health reporting stopped'' (w\<lparr>health_timer := False\<rparr>)
      else w)"

definition unregister :: "MCPRegistryClient \<Rightarrow> registry_world \<Rightarrow> registry_world" where
  "unregister c w =
     logger_info_call ''[SECURITY] Registry unregistration is disabled by security patch''
       (stopHealthReporting c w)"

section \<open>The hybrid memory backend\<close>

text \<open>
  Modelled from the spec: the hybrid backend.  Its code (\<^verbatim>\<open>hybrid-backend.ts\<close> and
  \<^verbatim>\<open>sqlite-backend.ts\<close>, which \<^verbatim>\<open>v3/@claude-flow/memory/IMPLEMENTATION_SUMMARY.md\<close>
  describes) is not among the sources; the data model and the operations below follow
  sections 3 to 7 of the specification.
  The two leaf operations of a write or of a hybrid read are independent of each other, so
  the model runs them one after the other.  Not modelled: the write-ahead log, time-outs,
  the passive expiry of entries by \<open>ttl\<close>, the life cycle of the coordinator (it is taken
  in its operating states), and the strict dual-write variant that section 9 leaves open.
\<close>

subsection \<open>Data model\<close>

text \<open>Modelled from the spec: a vector of an embedding (section 3, \<open>vector\<close>).\<close>

type_synonym vec = "real list"

text \<open>
  Modelled from the spec: \<open>MemoryEntry\<close> (section 3).  A missing namespace or key is the
  empty string; \<open>tags\<close> is a set of strings, held as a list.
\<close>

record MemoryEntry =
  entry_id :: string
  namespace :: string
  key :: string
  content :: string
  vector :: "vec option"
  tags :: "string list"
  createdAt :: nat
  updatedAt :: nat
  ttl :: "nat option"

text \<open>Modelled from the spec: the error taxonomy of section 7, as far as writes meet it.\<close>

datatype memory_error = ValidationError | BackendUnavailableError | CorruptIndexError

text \<open>
  Modelled from the spec: the condition of a leaf store (section 7): operating, down
  (\<open>BackendUnavailableError\<close>) or corrupt (\<open>CorruptIndexError\<close>, which blocks writes).
\<close>

datatype leaf_state = LeafUp | LeafDown | LeafCorrupt

subsection \<open>NamespaceManager\<close>

text \<open>Modelled from the spec: the namespace an operation gets when it names none (section 4.5).\<close>

definition DEFAULT_NAMESPACE :: string where
  "DEFAULT_NAMESPACE = ''default''"

text \<open>Modelled from the spec: "every operation carries a namespace (defaulted if omitted)".\<close>

definition resolve_namespace :: "string option \<Rightarrow> string" where
  "resolve_namespace ns =
     (case ns of None \<Rightarrow> DEFAULT_NAMESPACE | Some n \<Rightarrow> if n = [] then DEFAULT_NAMESPACE else n)"

text \<open>
  Modelled from the spec: the isolation rule of section 4.5.  An entry is visible to an
  operation when it lies in the requested namespace, or when the caller passed the
  cross-namespace wildcard flag.
\<close>

definition in_namespace :: "string option \<Rightarrow> bool \<Rightarrow> MemoryEntry \<Rightarrow> bool" where
  "in_namespace ns wildcard e = (wildcard \<or> namespace e = resolve_namespace ns)"

subsection \<open>StructuredStore\<close>

text \<open>
  Modelled from the spec: the state of \<open>StructuredStore\<close> (section 4.1): its entries in
  insertion order, and the condition of the leaf.
\<close>

record StructuredStore =
  rows :: "MemoryEntry list"
  s_state :: leaf_state

text \<open>Modelled from the spec: the upsert identity \<open>(namespace, key)\<close> of an entry (section 3).\<close>

definition identity :: "MemoryEntry \<Rightarrow> string \<times> string" where
  "identity e = (namespace e, key e)"

text \<open>Modelled from the spec: two entries with "the same pair" (section 3).\<close>

definition same_identity :: "MemoryEntry \<Rightarrow> MemoryEntry \<Rightarrow> bool" where
  "same_identity a b = (identity a = identity b)"

text \<open>
  Modelled from the spec: "a second \<open>store()\<close> with the same pair replaces
  content/vector/tags/updatedAt" (section 3).
\<close>

definition replace_fields :: "MemoryEntry \<Rightarrow> MemoryEntry \<Rightarrow> MemoryEntry" where
  "replace_fields old new =
     old\<lparr>content := content new, vector := vector new, tags := tags new,
         updatedAt := updatedAt new\<rparr>"

text \<open>
  Modelled from the spec: the upsert of section 3 on a list of entries: the entry stored
  under the pair is replaced in place, a new pair is appended.
\<close>

fun upsert :: "MemoryEntry \<Rightarrow> MemoryEntry list \<Rightarrow> MemoryEntry list" where
  "upsert e [] = [e]"
| "upsert e (x # xs) = (if same_identity x e then replace_fields x e # xs else x # upsert e xs)"

text \<open>
  Modelled from the spec: \<open>StructuredStore.store\<close> (section 4.1): "durable upsert; fails
  with \<open>ValidationError\<close> if namespace/key missing"; a leaf that is down or corrupt takes
  no write (section 7).
\<close>

definition structured_store :: "MemoryEntry \<Rightarrow> StructuredStore \<Rightarrow> memory_error + StructuredStore" where
  "structured_store e S =
     (if namespace e = [] \<or> key e = [] then Inl ValidationError
      else (case s_state S of
              LeafDown \<Rightarrow> Inl BackendUnavailableError
            | LeafCorrupt \<Rightarrow> Inl CorruptIndexError
            | LeafUp \<Rightarrow> Inr (S\<lparr>rows := upsert e (rows S)\<rparr>)))"

text \<open>Modelled from the spec: \<open>getByKey(namespace, key) -> Entry?\<close> (section 4.1).\<close>

definition getByKey :: "string \<Rightarrow> string \<Rightarrow> StructuredStore \<Rightarrow> MemoryEntry option" where
  "getByKey ns k S = find (\<lambda>e. namespace e = ns \<and> key e = k) (rows S)"

text \<open>
  Modelled from the spec: the filter of \<open>queryStructured\<close> (section 4.1), with the
  wildcard flag of section 4.5.
\<close>

record StructuredFilter =
  f_namespace :: "string option"
  f_crossNamespace :: bool
  keyPrefix :: "string option"
  f_tags :: "string list option"
  createdAfter :: "nat option"
  createdBefore :: "nat option"

text \<open>
  Modelled from the spec: when an entry passes a filter (section 4.1): it is visible in
  the requested namespace, its key starts with the prefix, it carries every listed tag,
  and it was created inside the time window.
\<close>

definition matches_filter :: "StructuredFilter \<Rightarrow> MemoryEntry \<Rightarrow> bool" where
  "matches_filter f e =
     (in_namespace (f_namespace f) (f_crossNamespace f) e
      \<and> (case keyPrefix f of None \<Rightarrow> True | Some p \<Rightarrow> prefix p (key e))
      \<and> (case f_tags f of None \<Rightarrow> True | Some ts \<Rightarrow> list_all (\<lambda>t. t \<in> set (tags e)) ts)
      \<and> (case createdAfter f of None \<Rightarrow> True | Some t \<Rightarrow> t < createdAt e)
      \<and> (case createdBefore f of None \<Rightarrow> True | Some t \<Rightarrow> createdAt e < t))"

text \<open>
  Modelled from the spec: \<open>queryStructured(filter)\<close> (section 4.1), in insertion order.
  A leaf that is down answers with the empty best-effort result (section 7).
\<close>

definition queryStructured :: "StructuredFilter \<Rightarrow> StructuredStore \<Rightarrow> MemoryEntry list" where
  "queryStructured f S =
     (if s_state S = LeafDown then [] else filter (matches_filter f) (rows S))"

subsection \<open>SemanticStore\<close>

text \<open>Modelled from the spec: the "vector-or-text" argument of \<open>querySemantic\<close> (section 4.2).\<close>

datatype query_input = QVector vec | QText string

text \<open>
  Modelled from the spec: the \<open>Semantic(vectorOrText, k, threshold)\<close> query of sections 3
  and 4.2, with the namespace and the wildcard flag every operation carries (section 4.5).
\<close>

record SemanticQuery =
  q_input :: query_input
  q_k :: nat
  q_threshold :: real
  q_namespace :: "string option"
  q_crossNamespace :: bool

text \<open>Modelled from the spec: a ranked hit, "(entry, similarity)" (section 4.2).\<close>

type_synonym hit = "MemoryEntry \<times> real"

text \<open>
  Modelled from the spec: an entry of the query cache of section 4.2: the query, the time
  it was answered, and the answer.
\<close>

record CacheEntry =
  cached_query :: SemanticQuery
  cached_at :: nat
  cached_hits :: "hit list"

text \<open>
  Modelled from the spec: the state of \<open>SemanticStore\<close> (section 4.2): the indexed
  entries, the condition of the leaf, and the query cache, most recently used first.
\<close>

record SemanticStore =
  nodes :: "MemoryEntry list"
  m_state :: leaf_state
  cache :: "CacheEntry list"

text \<open>
  Modelled from the spec: what the backend consumes and the specification leaves open:
  the similarity measure, the nodes an approximate traversal of the graph reaches for a
  query vector (recall is approximate, section 4.2), and the \<open>EmbeddingGenerator\<close> of
  section 6, which may be absent and may fail.
\<close>

record semantic_env =
  similarity :: "vec \<Rightarrow> vec \<Rightarrow> real"
  reaches :: "vec \<Rightarrow> MemoryEntry \<Rightarrow> bool"
  embeddingGenerator :: "(string \<Rightarrow> vec option) option"

text \<open>Modelled from the spec: the recognised options of section 6 that the model uses.\<close>

record HybridConfig =
  semanticThreshold :: real
  cacheSize :: nat
  cacheTTLms :: nat

text \<open>
  Modelled from the spec: the result of \<open>SemanticStore.store\<close> (section 4.2):
  \<open>Result<Indexed>\<close>, or \<open>Skipped\<close>.
\<close>

datatype semantic_write = Indexed | Skipped | SemanticFailed memory_error

text \<open>
  Modelled from the spec: \<open>SemanticStore.store\<close> (section 4.2): "inserts into the
  approximate graph; no-op (returns \<open>Skipped\<close>) if entry has no vector".  The entry
  indexed under the same pair is replaced (section 3); a leaf that is down or corrupt
  takes no write (section 7).
\<close>

definition semantic_store :: "MemoryEntry \<Rightarrow> SemanticStore \<Rightarrow> semantic_write \<times> SemanticStore" where
  "semantic_store e M =
     (case vector e of
        None \<Rightarrow> (Skipped, M)
      | Some v \<Rightarrow>
          (case m_state M of
             LeafDown \<Rightarrow> (SemanticFailed BackendUnavailableError, M)
           | LeafCorrupt \<Rightarrow> (SemanticFailed CorruptIndexError, M)
           | LeafUp \<Rightarrow> (Indexed, M\<lparr>nodes := upsert e (nodes M)\<rparr>)))"

text \<open>
  Modelled from the spec: the vector a query is answered for: the vector itself, or the
  embedding of the text, which is there only when a generator is and succeeds (section 6).
\<close>

definition resolve_query :: "semantic_env \<Rightarrow> query_input \<Rightarrow> vec option" where
  "resolve_query env q =
     (case q of
        QVector v \<Rightarrow> Some v
      | QText t \<Rightarrow> (case embeddingGenerator env of None \<Rightarrow> None | Some g \<Rightarrow> g t))"

text \<open>
  Modelled from the spec: "similarity \<in> [0,1]" (section 4.2): the similarity the store
  reports is the value of the measure it is given, kept inside the unit interval.
\<close>

definition unit_interval :: "real \<Rightarrow> real" where
  "unit_interval x = max 0 (min 1 x)"

text \<open>Modelled from the spec: the similarity of two vectors as the store reports it.\<close>

definition reported_similarity :: "semantic_env \<Rightarrow> vec \<Rightarrow> vec \<Rightarrow> real" where
  "reported_similarity env v u = unit_interval (similarity env v u)"

text \<open>Modelled from the spec: an indexed entry with its similarity to the query vector.\<close>

definition scored :: "semantic_env \<Rightarrow> vec \<Rightarrow> MemoryEntry \<Rightarrow> hit list" where
  "scored env v e =
     (case vector e of None \<Rightarrow> [] | Some u \<Rightarrow> [(e, reported_similarity env v u)])"

text \<open>Modelled from the spec: "descending by similarity" (section 4.2).\<close>

definition rank_desc :: "hit list \<Rightarrow> hit list" where
  "rank_desc hs = sort_key (\<lambda>h. - snd h) hs"

text \<open>
  Modelled from the spec: the graph search behind \<open>querySemantic\<close> (section 4.2): the
  nodes the traversal reaches in the requested namespace, scored, "only entries with
  similarity \<ge> threshold", ranked "descending by similarity", "result size \<le> k".
\<close>

definition search :: "semantic_env \<Rightarrow> SemanticQuery \<Rightarrow> MemoryEntry list \<Rightarrow> hit list" where
  "search env q ns =
     (case resolve_query env (q_input q) of
        None \<Rightarrow> []
      | Some v \<Rightarrow>
          take (q_k q)
            (rank_desc
               (filter (\<lambda>h. q_threshold q \<le> snd h)
                  (concat (map (scored env v)
                     (filter (\<lambda>e. reaches env v e
                                \<and> in_namespace (q_namespace q) (q_crossNamespace q) e) ns))))))"

text \<open>
  Modelled from the spec: the cache lookup of section 4.2: an identical query answered
  "within the TTL window".
\<close>

definition cache_lookup :: "nat \<Rightarrow> nat \<Rightarrow> SemanticQuery \<Rightarrow> CacheEntry list \<Rightarrow> CacheEntry option" where
  "cache_lookup ttl_ms now q cs = find (\<lambda>c. cached_query c = q \<and> now < cached_at c + ttl_ms) cs"

text \<open>
  Modelled from the spec: \<open>querySemantic\<close> (section 4.2) at time \<open>now\<close>.  A cached answer
  bypasses the traversal and becomes the most recently used; a fresh answer enters the
  cache, which is bounded by \<open>cacheSize\<close> and drops the least recently used.  A leaf that
  is down answers with the empty best-effort result (section 7).
\<close>

definition querySemantic ::
  "semantic_env \<Rightarrow> HybridConfig \<Rightarrow> nat \<Rightarrow> SemanticQuery \<Rightarrow> SemanticStore \<Rightarrow> hit list \<times> SemanticStore" where
  "querySemantic env cfg now q M =
     (if m_state M = LeafDown then ([], M)
      else (case cache_lookup (cacheTTLms cfg) now q (cache M) of
              Some c \<Rightarrow> (cached_hits c, M\<lparr>cache := c # remove1 c (cache M)\<rparr>)
            | None \<Rightarrow>
                (let hits = search env q (nodes M)
                 in (hits,
                     M\<lparr>cache := take (cacheSize cfg)
                          (\<lparr> cached_query = q, cached_at = now, cached_hits = hits \<rparr>
                           # filter (\<lambda>c. cached_query c \<noteq> q) (cache M))\<rparr>))))"

subsection \<open>HybridCoordinator\<close>

text \<open>Modelled from the spec: \<open>WriteResult{structuredOk, semanticOk}\<close> (section 4.3).\<close>

record WriteResult =
  structuredOk :: bool
  semanticOk :: bool

text \<open>
  Modelled from the spec: the state of \<open>HybridCoordinator\<close> (sections 2 and 4.3): its two
  leaf stores, its options, and the pairs flagged \<open>structured_only\<close> by a partial
  dual write (the \<open>ConsistencyWarning\<close> of section 7).
\<close>

record HybridCoordinator =
  structured :: StructuredStore
  semantic :: SemanticStore
  options :: HybridConfig
  structured_only :: "(string \<times> string) list"

text \<open>
  Modelled from the spec: what the coordinator does to an entry before it writes: the
  namespace is "defaulted if omitted" (section 4.5), and an entry without a vector gets
  the embedding of its content when a generator is there and succeeds (section 6).
\<close>

definition prepare_entry :: "semantic_env \<Rightarrow> MemoryEntry \<Rightarrow> MemoryEntry" where
  "prepare_entry env e =
     (let e1 = (if namespace e = [] then e\<lparr>namespace := DEFAULT_NAMESPACE\<rparr> else e)
      in (case vector e1 of
            Some v \<Rightarrow> e1
          | None \<Rightarrow> (case embeddingGenerator env of
                       None \<Rightarrow> e1
                     | Some g \<Rightarrow> e1\<lparr>vector := g (content e1)\<rparr>)))"

text \<open>
  Modelled from the spec: \<open>HybridCoordinator.store\<close> (section 4.3): both writes are
  issued, each on its own leaf; \<open>structuredOk\<close> and \<open>semanticOk\<close> report their outcomes;
  an entry written to the structured leaf only is flagged \<open>structured_only\<close>.
\<close>

definition store :: "semantic_env \<Rightarrow> MemoryEntry \<Rightarrow> HybridCoordinator \<Rightarrow> WriteResult \<times> HybridCoordinator" where
  "store env e c =
     (let e' = prepare_entry env e;
          sres = structured_store e' (structured c);
          mres = semantic_store e' (semantic c);
          sOk = \<not> isl sres;
          mOk = (fst mres = Indexed);
          pair = identity e'
      in (\<lparr> structuredOk = sOk, semanticOk = mOk \<rparr>,
          c\<lparr>structured := (case sres of Inr S' \<Rightarrow> S' | Inl err \<Rightarrow> structured c),
            semantic := snd mres,
            structured_only :=
              (if sOk \<and> \<not> mOk then pair # removeAll pair (structured_only c)
               else if sOk then removeAll pair (structured_only c)
               else structured_only c)\<rparr>))"

text \<open>
  Modelled from the spec: "Structured write success is required for overall success"
  (section 4.3): the call as a whole succeeds when the structured write did.
\<close>

definition overall_success :: "WriteResult \<Rightarrow> bool" where
  "overall_success r = structuredOk r"

text \<open>
  Modelled from the spec: \<open>queryStructured\<close> of the coordinator, "pure delegation to the
  respective leaf" (section 4.3).
\<close>

definition coordinator_queryStructured :: "StructuredFilter \<Rightarrow> HybridCoordinator \<Rightarrow> MemoryEntry list" where
  "coordinator_queryStructured f c = queryStructured f (structured c)"

text \<open>
  Modelled from the spec: \<open>querySemantic\<close> of the coordinator, "pure delegation to the
  respective leaf" (section 4.3); the leaf's cache changes with the query.
\<close>

definition coordinator_querySemantic ::
  "semantic_env \<Rightarrow> nat \<Rightarrow> SemanticQuery \<Rightarrow> HybridCoordinator \<Rightarrow> hit list \<times> HybridCoordinator" where
  "coordinator_querySemantic env now q c =
     (let r = querySemantic env (options c) now q (semantic c)
      in (fst r, c\<lparr>semantic := snd r\<rparr>))"

text \<open>Modelled from the spec: the four combine strategies of section 4.3.\<close>

datatype combineStrategy = Union | Intersection | SemanticFirst | StructuredFirst

text \<open>
  Modelled from the spec: \<open>Hybrid(structuredFilter, semanticQuery, combineStrategy)\<close>
  (section 3).
\<close>

record HybridQuery =
  structuredFilter :: StructuredFilter
  semanticQuery :: SemanticQuery
  strategy :: combineStrategy

text \<open>
  Modelled from the spec: "applies \<open>semanticThreshold\<close> to prune low-confidence semantic
  hits" (section 4.3).
\<close>

definition prune :: "real \<Rightarrow> hit list \<Rightarrow> hit list" where
  "prune threshold hs = filter (\<lambda>h. threshold \<le> snd h) hs"

text \<open>Modelled from the spec: the id of a hit, by which results are deduplicated.\<close>

definition hit_id :: "hit \<Rightarrow> string" where
  "hit_id h = entry_id (fst h)"

text \<open>
  Modelled from the spec: "dedupe by id" (section 4.3): the first hit of every id is
  kept; \<open>seen\<close> holds the ids met so far.
\<close>

fun dedupe_by_id :: "string set \<Rightarrow> hit list \<Rightarrow> hit list" where
  "dedupe_by_id seen [] = []"
| "dedupe_by_id seen (h # hs) =
     (if hit_id h \<in> seen then dedupe_by_id seen hs
      else h # dedupe_by_id (insert (hit_id h) seen) hs)"

text \<open>
  Modelled from the spec: \<open>union\<close> (section 4.3): "dedupe by id across both result sets;
  score = 1.0 for structured-only hits, similarity score for semantic hits; order by
  score descending".
\<close>

definition combine_union :: "MemoryEntry list \<Rightarrow> hit list \<Rightarrow> hit list" where
  "combine_union S M = rank_desc (dedupe_by_id {} (M @ map (\<lambda>e. (e, 1)) S))"

text \<open>
  Modelled from the spec: \<open>intersection\<close> (section 4.3): "keep only ids present in both
  result sets; score = semantic similarity".
\<close>

definition combine_intersection :: "MemoryEntry list \<Rightarrow> hit list \<Rightarrow> hit list" where
  "combine_intersection S M = filter (\<lambda>h. hit_id h \<in> entry_id ` set S) M"

text \<open>
  Modelled from the spec: \<open>semantic-first\<close> (section 4.3): "take the semantic-ranked
  order, drop ids failing the structured filter (post-filter)".
\<close>

definition combine_semantic_first :: "StructuredFilter \<Rightarrow> hit list \<Rightarrow> hit list" where
  "combine_semantic_first f M = filter (\<lambda>h. matches_filter f (fst h)) M"

text \<open>
  Modelled from the spec: \<open>structured-first\<close> (section 4.3): "take the structured result
  set as the candidate pool, then rank that pool using the semantic query only among
  candidates".  A candidate without a vector, or a query without one, ranks with 0.
\<close>

definition combine_structured_first :: "semantic_env \<Rightarrow> SemanticQuery \<Rightarrow> MemoryEntry list \<Rightarrow> hit list" where
  "combine_structured_first env q S =
     (case resolve_query env (q_input q) of
        None \<Rightarrow> map (\<lambda>e. (e, 0)) S
      | Some v \<Rightarrow>
          rank_desc
            (map (\<lambda>e. (e, (case vector e of None \<Rightarrow> 0 | Some u \<Rightarrow> reported_similarity env v u))) S))"

text \<open>Modelled from the spec: the structured leg of a hybrid query (section 4.3).\<close>

definition structured_hits :: "HybridQuery \<Rightarrow> HybridCoordinator \<Rightarrow> MemoryEntry list" where
  "structured_hits hq c = queryStructured (structuredFilter hq) (structured c)"

text \<open>
  Modelled from the spec: the semantic leg of a hybrid query (section 4.3): the answer of
  the leaf, pruned by \<open>semanticThreshold\<close>.
\<close>

definition semantic_hits :: "semantic_env \<Rightarrow> nat \<Rightarrow> HybridQuery \<Rightarrow> HybridCoordinator \<Rightarrow> hit list" where
  "semantic_hits env now hq c =
     prune (semanticThreshold (options c))
       (fst (querySemantic env (options c) now (semanticQuery hq) (semantic c)))"

text \<open>
  Modelled from the spec: \<open>queryHybrid(spec)\<close> (section 4.3): "runs both leaf queries,
  applies \<open>semanticThreshold\<close> to prune low-confidence semantic hits, then merges per
  \<open>combineStrategy\<close>".
\<close>

definition queryHybrid ::
  "semantic_env \<Rightarrow> nat \<Rightarrow> HybridQuery \<Rightarrow> HybridCoordinator \<Rightarrow> hit list \<times> HybridCoordinator" where
  "queryHybrid env now hq c =
     (let S = structured_hits hq c;
          M = semantic_hits env now hq c
      in ((case strategy hq of
             Union \<Rightarrow> combine_union S M
           | Intersection \<Rightarrow> combine_intersection S M
           | SemanticFirst \<Rightarrow> combine_semantic_first (structuredFilter hq) M
           | StructuredFirst \<Rightarrow> combine_structured_first env (semanticQuery hq) S),
          c\<lparr>semantic := snd (querySemantic env (options c) now (semanticQuery hq) (semantic c))\<rparr>))"

text \<open>
  Modelled from the spec: the invariant of section 3, "key (unique within namespace)",
  on a list of entries.
\<close>

definition keys_unique :: "MemoryEntry list \<Rightarrow> bool" where
  "keys_unique es = distinct (map identity es)"

text \<open>
  Modelled from the spec: the contract of \<open>querySemantic\<close> (section 4.2) as a property of
  an answer, which every answer held by the cache has to meet: ranked descending,
  every similarity in \<open>[0,1]\<close> and at least the threshold, every entry visible in the
  requested namespace, at most \<open>k\<close> hits.
\<close>

definition answer_ok :: "SemanticQuery \<Rightarrow> hit list \<Rightarrow> bool" where
  "answer_ok q hs =
     (sorted_wrt (\<lambda>a b. snd b \<le> snd a) hs
      \<and> list_all (\<lambda>h. 0 \<le> snd h \<and> snd h \<le> 1 \<and> q_threshold q \<le> snd h
                      \<and> in_namespace (q_namespace q) (q_crossNamespace q) (fst h)) hs
      \<and> length hs \<le> q_k q)"

text \<open>
  Modelled from the spec: the cache holds answers of \<open>querySemantic\<close> (section 4.2), so
  each of them meets the contract for its query.
\<close>

definition cache_ok :: "CacheEntry list \<Rightarrow> bool" where
  "cache_ok cs = list_all (\<lambda>c. answer_ok (cached_query c) (cached_hits c)) cs"

text \<open>
  Modelled from the spec: the invariant of section 3, "id (unique within namespace)", on
  a list of entries.
\<close>

definition ids_unique :: "MemoryEntry list \<Rightarrow> bool" where
  "ids_unique es = distinct (map (\<lambda>e. (namespace e, entry_id e)) es)"

text \<open>
  Modelled from the spec: the cache holds answers of \<open>querySemantic\<close> (section 4.2) over
  entries whose id is "unique within namespace" (section 3), so an answer to a query
  without the wildcard flag names no id twice.
\<close>

definition cache_distinct :: "CacheEntry list \<Rightarrow> bool" where
  "cache_distinct cs =
     list_all (\<lambda>c. q_crossNamespace (cached_query c) \<or> distinct (map hit_id (cached_hits c))) cs"

text \<open>
  Modelled from the spec: the two leaves hold the same entries (the dual write of
  section 4.3, without an entry that was later rewritten on the structured leaf only):
  every indexed entry, and every entry of a cached answer, is a row of the structured
  store.
\<close>

definition leaves_agree :: "HybridCoordinator \<Rightarrow> bool" where
  "leaves_agree c =
     (set (nodes (semantic c)) \<subseteq> set (rows (structured c))
      \<and> list_all (\<lambda>ce. fst ` set (cached_hits ce) \<subseteq> set (rows (structured c))) (cache (semantic c)))"

subsection \<open>Examples of the model's parameters and states\<close>

text \<open>
  Modelled from the spec: an environment without an embedding generator, whose
  similarity is nine tenths on equal vectors and one half otherwise, and whose traversal
  reaches every node.
\<close>

definition example_env :: semantic_env where
  "example_env = \<lparr> similarity = (\<lambda>u v. if u = v then 9 / 10 else 1 / 2),
                    reaches = (\<lambda>v e. True),
                    embeddingGenerator = None \<rparr>"


text \<open>Modelled from the spec: a coordinator with empty, operating leaf stores.\<close>

definition example_coordinator :: HybridCoordinator where
  "example_coordinator =
     \<lparr> structured = \<lparr> rows = [], s_state = LeafUp \<rparr>,
       semantic = \<lparr> nodes = [], m_state = LeafUp, cache = [] \<rparr>,
       options = \<lparr> semanticThreshold = 7 / 10, cacheSize = 2, cacheTTLms = 1000 \<rparr>,
       structured_only = [] \<rparr>"

text \<open>Modelled from the spec: an entry with the given id, pair, content, vector and time.\<close>

definition example_entry :: "string \<Rightarrow> string \<Rightarrow> string \<Rightarrow> string \<Rightarrow> vec option \<Rightarrow> nat \<Rightarrow> MemoryEntry" where
  "example_entry i ns k c v t =
     \<lparr> entry_id = i, namespace = ns, key = k, content = c, vector = v, tags = [],
       createdAt = t, updatedAt = t, ttl = None \<rparr>"

text \<open>
  Modelled from the spec: the coordinator after four calls of \<open>store\<close>: three entries in
  namespace \<open>A\<close>, the third without a vector, and one entry in namespace \<open>B\<close>.
\<close>

definition example_state :: HybridCoordinator where
  "example_state =
     snd (store example_env (example_entry ''m4'' ''B'' ''k1'' ''delta'' (Some [1, 0]) 4)
       (snd (store example_env (example_entry ''m3'' ''A'' ''k3'' ''gamma'' None 3)
         (snd (store example_env (example_entry ''m2'' ''A'' ''k2'' ''beta'' (Some [0, 1]) 2)
           (snd (store example_env (example_entry ''m1'' ''A'' ''k1'' ''alpha'' (Some [1, 0]) 1)
              example_coordinator)))))))"

text \<open>
  Modelled from the spec: a hybrid query on namespace \<open>A\<close>: the keys that start with
  \<open>k\<close>, and the five nearest entries to the vector \<open>[1, 0]\<close>.
\<close>

definition example_query :: "combineStrategy \<Rightarrow> HybridQuery" where
  "example_query s =
     \<lparr> structuredFilter = \<lparr> f_namespace = Some ''A'', f_crossNamespace = False,
                            keyPrefix = Some ''k'', f_tags = None, createdAfter = None,
                            createdBefore = None \<rparr>,
       semanticQuery = \<lparr> q_input = QVector [1, 0], q_k = 5, q_threshold = 0,
                         q_namespace = Some ''A'', q_crossNamespace = False \<rparr>,
       strategy = s \<rparr>"




chapter \<open>Properties\<close>

section \<open>Properties of demo content identifiers of the IPFS upload module\<close>

lemma base32_char: "base32Chars ! (n mod 32) \<in> set base32Chars"
proof -
  have "length base32Chars = 32" by (simp add: base32Chars_def)
  then have "n mod 32 < length base32Chars" by simp
  then show ?thesis by (rule nth_mem)
qed

lemma cid_loop_appends:
  "i \<le> 44 \<Longrightarrow>
     \<exists>rest. cid_loop bs i r = r @ rest \<and> length rest = 44 - i \<and> set rest \<subseteq> set base32Chars"
proof (induction bs i r rule: cid_loop.induct)
  case (1 cidBytes i result)
  show ?case
  proof (cases "i < 44")
    case True
    let ?c = "base32Chars ! (unat (byte_or_zero cidBytes (i mod length cidBytes)) mod 32)"
    from True have "i + 1 \<le> 44" by simp
    from "1.IH" [OF True this] obtain rest where
      rest: "cid_loop cidBytes (i + 1) (result @ [?c]) = (result @ [?c]) @ rest"
        "length rest = 44 - (i + 1)" "set rest \<subseteq> set base32Chars"
      by blast
    from True rest(1) have "cid_loop cidBytes i result = result @ (?c # rest)"
      by (subst cid_loop.simps) simp
    moreover from True rest(2) have "length (?c # rest) = 44 - i" by simp
    moreover from rest(3) have "set (?c # rest) \<subseteq> set base32Chars"
      by (simp add: base32_char)
    ultimately show ?thesis by blast
  next
    case False
    with "1.prems" have "i = 44" by simp
    then have "cid_loop cidBytes i result = result @ []"
      by (subst cid_loop.simps) simp
    with \<open>i = 44\<close> show ?thesis by simp
  qed
qed

lemma uploadToIPFS_is_demo:
  "uploadToIPFS sha256 env now buf opts = demo_upload sha256 now buf opts"
  by (simp add: uploadToIPFS_def try_pinata_def try_web3_def checkLocalIPFSNode_def
      uploadToPinata_def uploadToWeb3Storage_def)

text \<open>
  Claim C10.  The demo CID is computed from the bytes of the buffer alone (through the
  digest): it always starts with \<open>bafybei\<close> and is 51 characters long, the 7 of the
  prefix and 44 characters of the base-32 alphabet.  \<^verbatim>\<open>uploadToIPFS\<close> reports exactly
  this CID whatever the environment, the options and the time of the call are, so two
  uploads of equal bytes report the same \<open>cid\<close>.
\<close>

theorem generateDemoCID_deterministic:
  "length (generateDemoCID sha256 buf) = 51
   \<and> take 7 (generateDemoCID sha256 buf) = ''bafybei''
   \<and> length (drop 7 (generateDemoCID sha256 buf)) = 44
   \<and> set (drop 7 (generateDemoCID sha256 buf)) \<subseteq> set base32Chars
   \<and> cid (uploadToIPFS sha256 env1 now1 buf opts1) = generateDemoCID sha256 buf
   \<and> cid (uploadToIPFS sha256 env1 now1 buf opts1)
       = cid (uploadToIPFS sha256 env2 now2 buf opts2)"
proof -
  obtain rest where rest:
    "cid_loop (cid_prefix @ sha256 buf) 0 ''bafybei'' = ''bafybei'' @ rest"
    "length rest = 44 - 0" "set rest \<subseteq> set base32Chars"
    using cid_loop_appends [of 0 "cid_prefix @ sha256 buf" "''bafybei''"] by auto
  have g: "generateDemoCID sha256 buf = ''bafybei'' @ rest"
    by (simp add: generateDemoCID_def Let_def rest(1))
  have up: "cid (uploadToIPFS sha256 e n buf opts) = generateDemoCID sha256 buf"
    for e n opts
    by (simp add: uploadToIPFS_is_demo demo_upload_def Let_def)
  from rest(2,3) show ?thesis
    by (simp add: g up)
qed

section \<open>Properties of the update executor\<close>

lemma executeUpdate_cases:
  "fst (executeUpdate V now u inst dryRun w)
     = (let v = V (package u) (currentVersion u) (latestVersion u) inst
        in if \<not> valid v
           then Inr \<lparr> success = False, r_package = package u, version = latestVersion u,
                   error = Some (''Validation failed: '' @ join '', '' (incompatibilities v)),
                   validation = v \<rparr>
           else if dryRun
           then Inr \<lparr> success = True, r_package = package u, version = latestVersion u,
                   error = None, validation = v \<rparr>
           else if history_writable w \<and> (\<exists>hs. loadHistory w = JArr hs)
           then Inr \<lparr> success = False, r_package = package u, version = latestVersion u,
                   error = Some update_blocked_message, validation = v \<rparr>
           else if history_writable w then Inl TypeError
           else (case loadHistory w of JArr hs \<Rightarrow> Inl FsError | _ \<Rightarrow> Inl TypeError))"
  by (cases "loadHistory w")
     (simp_all add: executeUpdate_def Let_def recordUpdate_def saveHistory_def loadHistory_def)

lemma executeUpdate_success_iff:
  "(\<exists>r. fst (executeUpdate V now u inst dryRun w) = Inr r \<and> success r)
     \<longleftrightarrow> dryRun \<and> valid (V (package u) (currentVersion u) (latestVersion u) inst)"
  by (cases "loadHistory w") (auto simp: executeUpdate_cases Let_def)

lemma loadHistory_console: "loadHistory (w\<lparr>console := c\<rparr>) = loadHistory w"
  by (simp add: loadHistory_def)

lemma executeUpdate_shell:
  "shell_commands (snd (executeUpdate V now u inst dryRun w)) = shell_commands w"
  by (cases "loadHistory w")
     (simp_all add: executeUpdate_def Let_def recordUpdate_def saveHistory_def
        loadHistory_console)

lemma executeUpdate_invalid:
  assumes "\<not> valid (V (package u) (currentVersion u) (latestVersion u) inst)"
  shows "\<exists>r. fst (executeUpdate V now u inst dryRun w) = Inr r \<and> \<not> success r
           \<and> error r = Some (''Validation failed: ''
                @ join '', '' (incompatibilities (V (package u) (currentVersion u) (latestVersion u) inst)))"
  using assms by (simp add: executeUpdate_cases Let_def)

lemma executeUpdate_blocked_recorded:
  assumes "valid (V (package u) (currentVersion u) (latestVersion u) inst)"
    and "history_writable w" and "loadHistory w = JArr hs"
  shows "\<exists>r. fst (executeUpdate V now u inst False w) = Inr r \<and> \<not> success r
           \<and> error r = Some update_blocked_message"
  using assms by (simp add: executeUpdate_cases Let_def)

lemma rollbackUpdate_never_succeeds:
  "fst (rollbackUpdate pn w) = Inr r \<Longrightarrow> \<not> rb_success r"
  by (auto simp: rollbackUpdate_def Let_def
      split: sum.splits if_splits json.splits option.splits)

lemma rollbackUpdate_shell:
  "shell_commands (snd (rollbackUpdate pn w)) = shell_commands w"
  by (auto simp: rollbackUpdate_def Let_def
      split: sum.splits if_splits json.splits option.splits)

lemma find_candidate_found:
  assumes "JNull \<notin> set hs" "list_ex (rollback_candidate pn) hs"
  shows "\<exists>h \<in> set hs. find_candidate pn hs = Inr (Some h)"
  using assms by (induction hs) auto

lemma entry_shaped_not_null: "entry_shaped h \<Longrightarrow> h \<noteq> JNull"
  by (auto simp: entry_shaped_def field_def)

lemma entry_shaped_interpolation:
  assumes "entry_shaped h"
  shows "\<not> interpolation_throws (field h ''package'')"
    and "\<not> interpolation_throws (field h ''fromVersion'')"
  using assms
  by (auto simp: entry_shaped_def interpolation_throws_def split: option.splits json.splits)

lemma rollbackUpdate_candidate:
  assumes "loadHistory w = JArr hs" "list_all entry_shaped hs" "list_ex (rollback_candidate pn) hs"
  shows "fst (rollbackUpdate pn w) = Inr \<lparr> rb_success = False, message = rollback_blocked_message \<rparr>"
proof -
  from assms(3) have ne: "hs \<noteq> []" by auto
  from assms(2) have "JNull \<notin> set hs"
    using entry_shaped_not_null by (auto simp: list_all_iff)
  with assms(3) have "JNull \<notin> set (rev hs)" "list_ex (rollback_candidate pn) (rev hs)"
    by (simp_all add: list_ex_iff)
  then obtain h where h: "h \<in> set (rev hs)" "find_candidate pn (rev hs) = Inr (Some h)"
    using find_candidate_found by blast
  from h(1) assms(2) have "entry_shaped h"
    by (simp add: list_all_iff)
  from entry_shaped_interpolation [OF this] ne assms(1) h(2) show ?thesis
    by (simp add: rollbackUpdate_def Let_def length_is_zero_def)
qed

text \<open>
  Claim C9, as stated, fails: with \<^verbatim>\<open>dryRun\<close> false and a passing validation,
  \<^verbatim>\<open>executeUpdate\<close> on a history file that cannot be written does not return at all, it
  rejects with the error of the file system; and \<^verbatim>\<open>rollbackUpdate\<close> on a history that
  holds a rollback candidate followed by a \<^verbatim>\<open>null\<close> element rejects with a \<^verbatim>\<open>TypeError\<close>,
  as it does on a candidate whose \<^verbatim>\<open>package\<close> cannot be converted to a string.
\<close>

theorem executeUpdate_always_returns_counterexample:
  "valid ((\<lambda>p c l i. \<lparr> valid = True, incompatibilities = [] \<rparr>)
            ''claude-flow'' ''2.1.0'' ''2.2.0'' Map.empty)
   \<and> fst (executeUpdate (\<lambda>p c l i. \<lparr> valid = True, incompatibilities = [] \<rparr>)
        ''2026-01-05T00:00:00.000Z''
        \<lparr> package = ''claude-flow'', currentVersion = ''2.1.0'', latestVersion = ''2.2.0'',
          priority = ''normal'' \<rparr>
        Map.empty False
        \<lparr> history = NoFile, history_writable = False, console = [], shell_commands = [] \<rparr>)
       = Inl FsError
   \<and> \<not> (\<exists>r. fst (executeUpdate (\<lambda>p c l i. \<lparr> valid = True, incompatibilities = [] \<rparr>)
        ''2026-01-05T00:00:00.000Z''
        \<lparr> package = ''claude-flow'', currentVersion = ''2.1.0'', latestVersion = ''2.2.0'',
          priority = ''normal'' \<rparr>
        Map.empty False
        \<lparr> history = NoFile, history_writable = False, console = [], shell_commands = [] \<rparr>)
       = Inr r \<and> \<not> success r)
   \<and> list_ex (rollback_candidate None)
        [JObj [(''package'', JStr ''claude-flow''), (''fromVersion'', JStr ''2.0.0''),
               (''success'', JBool True), (''rollbackAvailable'', JBool True)],
         JNull]
   \<and> fst (rollbackUpdate None
        \<lparr> history = Parsed (JArr
            [JObj [(''package'', JStr ''claude-flow''), (''fromVersion'', JStr ''2.0.0''),
                   (''success'', JBool True), (''rollbackAvailable'', JBool True)],
             JNull]),
          history_writable = True, console = [], shell_commands = [] \<rparr>)
       = Inl TypeError
   \<and> list_ex (rollback_candidate None)
        [JObj [(''package'', JObj [(''toString'', JNull)]), (''fromVersion'', JStr ''2.0.0''),
               (''success'', JBool True), (''rollbackAvailable'', JBool True)]]
   \<and> fst (rollbackUpdate None
        \<lparr> history = Parsed (JArr
            [JObj [(''package'', JObj [(''toString'', JNull)]), (''fromVersion'', JStr ''2.0.0''),
                   (''success'', JBool True), (''rollbackAvailable'', JBool True)]]),
          history_writable = True, console = [], shell_commands = [] \<rparr>)
       = Inl TypeError"
  by (simp add: executeUpdate_def Let_def recordUpdate_def saveHistory_def loadHistory_def
      rollbackUpdate_def length_is_zero_def rollback_candidate_def truthy_def truthy_json_def
      field_def interpolation_throws_def)

text \<open>
  Claim C9, amended.  \<^verbatim>\<open>executeUpdate\<close> returns success exactly for a dry run whose
  validation passes, and it never hands a command to the shell.  With \<^verbatim>\<open>dryRun\<close> false it
  returns a failure with the validation message when validation fails; when validation
  passes it returns a failure with the security-block message, provided the failure can
  be recorded: the history file can be written and what it holds is an array (or it is
  missing or unreadable).  \<^verbatim>\<open>rollbackUpdate\<close> never returns success and never runs a
  command; it returns a failure with the security-block message when the history holds
  a rollback candidate and is an array of objects whose \<^verbatim>\<open>package\<close> and \<^verbatim>\<open>fromVersion\<close> are
  strings.
\<close>

theorem executeUpdate_blocked:
  "((\<exists>r. fst (executeUpdate V now u inst dryRun w) = Inr r \<and> success r)
      \<longleftrightarrow> dryRun \<and> valid (V (package u) (currentVersion u) (latestVersion u) inst))
   \<and> shell_commands (snd (executeUpdate V now u inst dryRun w)) = shell_commands w
   \<and> (\<not> valid (V (package u) (currentVersion u) (latestVersion u) inst)
        \<longrightarrow> (\<exists>r. fst (executeUpdate V now u inst False w) = Inr r \<and> \<not> success r
               \<and> error r = Some (''Validation failed: ''
                    @ join '', '' (incompatibilities
                         (V (package u) (currentVersion u) (latestVersion u) inst)))))
   \<and> (valid (V (package u) (currentVersion u) (latestVersion u) inst)
        \<and> history_writable w \<and> (\<exists>hs. loadHistory w = JArr hs)
        \<longrightarrow> (\<exists>r. fst (executeUpdate V now u inst False w) = Inr r \<and> \<not> success r
               \<and> error r = Some update_blocked_message))
   \<and> (\<forall>r. fst (rollbackUpdate pn w) = Inr r \<longrightarrow> \<not> rb_success r)
   \<and> shell_commands (snd (rollbackUpdate pn w)) = shell_commands w
   \<and> ((\<exists>hs. loadHistory w = JArr hs \<and> list_all entry_shaped hs \<and> list_ex (rollback_candidate pn) hs)
        \<longrightarrow> fst (rollbackUpdate pn w)
              = Inr \<lparr> rb_success = False, message = rollback_blocked_message \<rparr>)"
proof -
  have 1: "(\<exists>r. fst (executeUpdate V now u inst dryRun w) = Inr r \<and> success r)
      \<longleftrightarrow> dryRun \<and> valid (V (package u) (currentVersion u) (latestVersion u) inst)"
    by (rule executeUpdate_success_iff)
  have 2: "shell_commands (snd (executeUpdate V now u inst dryRun w)) = shell_commands w"
    by (rule executeUpdate_shell)
  have 3: "\<not> valid (V (package u) (currentVersion u) (latestVersion u) inst)
        \<longrightarrow> (\<exists>r. fst (executeUpdate V now u inst False w) = Inr r \<and> \<not> success r
               \<and> error r = Some (''Validation failed: ''
                    @ join '', '' (incompatibilities
                         (V (package u) (currentVersion u) (latestVersion u) inst))))"
    using executeUpdate_invalid [of V u inst now False w] by blast
  have 4: "valid (V (package u) (currentVersion u) (latestVersion u) inst)
        \<and> history_writable w \<and> (\<exists>hs. loadHistory w = JArr hs)
        \<longrightarrow> (\<exists>r. fst (executeUpdate V now u inst False w) = Inr r \<and> \<not> success r
               \<and> error r = Some update_blocked_message)"
    using executeUpdate_blocked_recorded [of V u inst w _ now] by blast
  have 5: "\<forall>r. fst (rollbackUpdate pn w) = Inr r \<longrightarrow> \<not> rb_success r"
    using rollbackUpdate_never_succeeds by blast
  have 6: "shell_commands (snd (rollbackUpdate pn w)) = shell_commands w"
    by (rule rollbackUpdate_shell)
  have 7: "(\<exists>hs. loadHistory w = JArr hs \<and> list_all entry_shaped hs \<and> list_ex (rollback_candidate pn) hs)
        \<longrightarrow> fst (rollbackUpdate pn w)
              = Inr \<lparr> rb_success = False, message = rollback_blocked_message \<rparr>"
    using rollbackUpdate_candidate [of w _ pn] by blast
  from 1 2 3 4 5 6 7 show ?thesis by (intro conjI)
qed

theorem executeUpdate_blocked_witness:
  "valid ((\<lambda>p c l i. \<lparr> valid = True, incompatibilities = [] \<rparr>)
            ''claude-flow'' ''2.1.0'' ''2.2.0'' Map.empty)
   \<and> history_writable
        \<lparr> history = Parsed (JArr
            [JObj [(''package'', JStr ''claude-flow''), (''fromVersion'', JStr ''2.0.0''),
                   (''success'', JBool True), (''rollbackAvailable'', JBool True)]]),
          history_writable = True, console = [], shell_commands = [] \<rparr>
   \<and> loadHistory
        \<lparr> history = Parsed (JArr
            [JObj [(''package'', JStr ''claude-flow''), (''fromVersion'', JStr ''2.0.0''),
                   (''success'', JBool True), (''rollbackAvailable'', JBool True)]]),
          history_writable = True, console = [], shell_commands = [] \<rparr>
       = JArr [JObj [(''package'', JStr ''claude-flow''), (''fromVersion'', JStr ''2.0.0''),
                     (''success'', JBool True), (''rollbackAvailable'', JBool True)]]
   \<and> list_all entry_shaped
        [JObj [(''package'', JStr ''claude-flow''), (''fromVersion'', JStr ''2.0.0''),
               (''success'', JBool True), (''rollbackAvailable'', JBool True)]]
   \<and> list_ex (rollback_candidate None)
        [JObj [(''package'', JStr ''claude-flow''), (''fromVersion'', JStr ''2.0.0''),
               (''success'', JBool True), (''rollbackAvailable'', JBool True)]]
   \<and> fst (rollbackUpdate None
        \<lparr> history = Parsed (JArr
            [JObj [(''package'', JStr ''claude-flow''), (''fromVersion'', JStr ''2.0.0''),
                   (''success'', JBool True), (''rollbackAvailable'', JBool True)]]),
          history_writable = True, console = [], shell_commands = [] \<rparr>)
       = Inr \<lparr> rb_success = False,
               message = ''[SECURITY] Auto-rollback execution blocked. Manual installation required.'' \<rparr>
   \<and> fst (executeUpdate (\<lambda>p c l i. \<lparr> valid = True, incompatibilities = [] \<rparr>)
        ''2026-01-05T00:00:00.000Z''
        \<lparr> package = ''claude-flow'', currentVersion = ''2.1.0'', latestVersion = ''2.2.0'',
          priority = ''normal'' \<rparr>
        Map.empty False
        \<lparr> history = Parsed (JArr
            [JObj [(''package'', JStr ''claude-flow''), (''fromVersion'', JStr ''2.0.0''),
                   (''success'', JBool True), (''rollbackAvailable'', JBool True)]]),
          history_writable = True, console = [], shell_commands = [] \<rparr>)
       = Inr \<lparr> success = False, r_package = ''claude-flow'', version = ''2.2.0'',
               error = Some ''[SECURITY] Auto-update execution blocked. Manual installation required.'',
               validation = \<lparr> valid = True, incompatibilities = [] \<rparr> \<rparr>"
  using executeUpdate_blocked
    [of "\<lambda>p c l i. \<lparr> valid = True, incompatibilities = [] \<rparr>"
        "''2026-01-05T00:00:00.000Z''"
        "\<lparr> package = ''claude-flow'', currentVersion = ''2.1.0'', latestVersion = ''2.2.0'',
           priority = ''normal'' \<rparr>"
        Map.empty False
        "\<lparr> history = Parsed (JArr
            [JObj [(''package'', JStr ''claude-flow''), (''fromVersion'', JStr ''2.0.0''),
                   (''success'', JBool True), (''rollbackAvailable'', JBool True)]]),
           history_writable = True, console = [], shell_commands = [] \<rparr>"
        None]
  by (simp add: executeUpdate_def Let_def recordUpdate_def saveHistory_def loadHistory_def
      rollbackUpdate_def length_is_zero_def rollback_candidate_def truthy_def truthy_json_def
      field_def rollback_blocked_message_def update_blocked_message_def entry_shaped_def
      interpolation_throws_def)

section \<open>Properties of the security circuit breaker\<close>

lemma endsWith_suffix: "endsWith s t \<longleftrightarrow> suffix t s"
proof
  assume "endsWith s t"
  then have "s = take (length s - length t) s @ t"
    by (metis append_take_drop_id endsWith_def)
  then show "suffix t s"
    by (metis suffixI)
next
  assume "suffix t s"
  then obtain zs where "s = zs @ t"
    by (auto simp: suffix_def)
  then show "endsWith s t"
    by (simp add: endsWith_def)
qed

lemma isUrlAllowed_iff:
  "isUrlAllowed parseURL u \<longleftrightarrow>
     (\<exists>parsed. parseURL u = Some parsed
        \<and> (\<exists>domain \<in> {''api.anthropic.com'', ''anthropic.com''}.
              hostname parsed = domain \<or> suffix (''.'' @ domain) (hostname parsed)))"
  by (cases "parseURL u") (simp_all add: isUrlAllowed_def ALLOWED_DOMAINS_def endsWith_suffix)

text \<open>
  Claim C8.  \<^verbatim>\<open>isUrlAllowed\<close> holds exactly when the string parses as a URL whose host name
  is one of the two allowed domains or ends with a dot followed by one of them; a string
  that does not parse is not allowed.  \<^verbatim>\<open>guardedFetch\<close> throws exactly when the URL read
  from its input is not allowed, and otherwise hands back the call of the platform's
  \<^verbatim>\<open>fetch\<close>.
\<close>

theorem isUrlAllowed_guardedFetch:
  "(isUrlAllowed parseURL u \<longleftrightarrow>
      (\<exists>parsed. parseURL u = Some parsed
         \<and> (\<exists>domain \<in> {''api.anthropic.com'', ''anthropic.com''}.
               hostname parsed = domain \<or> suffix (''.'' @ domain) (hostname parsed))))
   \<and> (parseURL u = None \<longrightarrow> \<not> isUrlAllowed parseURL u)
   \<and> (isl (guardedFetch parseURL fetch input init) \<longleftrightarrow> \<not> isUrlAllowed parseURL (input_url input))
   \<and> (isUrlAllowed parseURL (input_url input)
        \<longrightarrow> guardedFetch parseURL fetch input init = Inr (fetch input init))"
proof -
  have "parseURL u = None \<longrightarrow> \<not> isUrlAllowed parseURL u"
    by (simp add: isUrlAllowed_def)
  moreover have "isl (guardedFetch parseURL fetch input init) \<longleftrightarrow> \<not> isUrlAllowed parseURL (input_url input)"
    by (simp add: guardedFetch_def Let_def)
  moreover have "isUrlAllowed parseURL (input_url input)
        \<longrightarrow> guardedFetch parseURL fetch input init = Inr (fetch input init)"
    by (simp add: guardedFetch_def Let_def)
  ultimately show ?thesis
    using isUrlAllowed_iff [of parseURL u] by blast
qed

theorem isUrlAllowed_guardedFetch_witness:
  "(\<lambda>s. if s = ''https://docs.anthropic.com/en/api''
         then Some \<lparr> href = s, hostname = ''docs.anthropic.com'' \<rparr> else None) ''not a url'' = None
   \<and> \<not> isUrlAllowed
         (\<lambda>s. if s = ''https://docs.anthropic.com/en/api''
               then Some \<lparr> href = s, hostname = ''docs.anthropic.com'' \<rparr> else None) ''not a url''
   \<and> isUrlAllowed
         (\<lambda>s. if s = ''https://docs.anthropic.com/en/api''
               then Some \<lparr> href = s, hostname = ''docs.anthropic.com'' \<rparr> else None)
         (input_url (InputString ''https://docs.anthropic.com/en/api''))
   \<and> guardedFetch
         (\<lambda>s. if s = ''https://docs.anthropic.com/en/api''
               then Some \<lparr> href = s, hostname = ''docs.anthropic.com'' \<rparr> else None)
         (\<lambda>i n. (200::nat)) (InputString ''https://docs.anthropic.com/en/api'') ()
       = Inr 200"
  using isUrlAllowed_guardedFetch
    [of "\<lambda>s. if s = ''https://docs.anthropic.com/en/api''
              then Some \<lparr> href = s, hostname = ''docs.anthropic.com'' \<rparr> else None"
        "''not a url''" "\<lambda>i n. (200::nat)" "InputString ''https://docs.anthropic.com/en/api''" "()"]
  by (simp add: isUrlAllowed_def ALLOWED_DOMAINS_def endsWith_def)

section \<open>Properties of the MCP registry client\<close>

text \<open>
  Claim C7.  The registry client is a disabled stub: \<^verbatim>\<open>searchServers\<close> returns the empty
  list for every query, and \<^verbatim>\<open>register\<close>, \<^verbatim>\<open>updateMetadata\<close>, \<^verbatim>\<open>reportHealth\<close> and
  \<^verbatim>\<open>searchServers\<close> send no request to a remote registry; \<^verbatim>\<open>reportHealth\<close> changes nothing
  at all.
\<close>

theorem registry_client_disabled:
  "fst (searchServers c query w) = []
   \<and> remote_requests (snd (searchServers c query w)) = remote_requests w
   \<and> remote_requests (register c w) = remote_requests w
   \<and> remote_requests (updateMetadata c updates w) = remote_requests w
   \<and> remote_requests (reportHealth c w) = remote_requests w
   \<and> reportHealth c w = w"
  by (simp add: searchServers_def register_def updateMetadata_def reportHealth_def
      logger_info_call_def)

section \<open>Properties of the hybrid memory backend\<close>

subsection \<open>Upsert\<close>

lemma map_identity_upsert:
  "map identity (upsert e es)
     = (if identity e \<in> set (map identity es) then map identity es else map identity es @ [identity e])"
  by (induction es) (auto simp: same_identity_def identity_def replace_fields_def)

lemma keys_unique_upsert: "keys_unique es \<Longrightarrow> keys_unique (upsert e es)"
  by (simp add: keys_unique_def map_identity_upsert)

lemma identity_in_upsert: "identity e \<in> set (map identity (upsert e es))"
  by (simp add: map_identity_upsert)

lemma count_distinct_one:
  "distinct (map f xs) \<Longrightarrow> p \<in> set (map f xs) \<Longrightarrow> length (filter (\<lambda>x. f x = p) xs) = 1"
proof (induction xs)
  case Nil
  then show ?case by simp
next
  case (Cons a xs)
  show ?case
  proof (cases "f a = p")
    case True
    with Cons.prems have "p \<notin> f ` set xs" by simp
    then have "filter (\<lambda>x. f x = p) xs = []" by (auto simp: filter_empty_conv)
    with True show ?thesis by simp
  next
    case False
    with Cons show ?thesis by auto
  qed
qed

lemma count_distinct_le_one:
  assumes "distinct (map f xs)"
  shows "length (filter (\<lambda>x. f x = p) xs) \<le> 1"
proof (cases "p \<in> set (map f xs)")
  case True
  from count_distinct_one [OF assms True] show ?thesis by simp
next
  case False
  then have "filter (\<lambda>x. f x = p) xs = []" by (auto simp: filter_empty_conv)
  then show ?thesis by simp
qed

lemma find_upsert:
  "\<exists>x. find (\<lambda>x. namespace x = namespace e \<and> key x = key e) (upsert e es) = Some x
       \<and> content x = content e \<and> vector x = vector e \<and> tags x = tags e \<and> updatedAt x = updatedAt e"
  by (induction es) (auto simp: same_identity_def identity_def replace_fields_def)

lemma prepare_entry_fields:
  "key (prepare_entry env e) = key e"
  "content (prepare_entry env e) = content e"
  "tags (prepare_entry env e) = tags e"
  "updatedAt (prepare_entry env e) = updatedAt e"
  "namespace (prepare_entry env e) \<noteq> []"
  by (auto simp: prepare_entry_def Let_def DEFAULT_NAMESPACE_def split: option.splits)

lemma prepare_entry_namespace:
  "namespace (prepare_entry env e) = (if namespace e = [] then DEFAULT_NAMESPACE else namespace e)"
  by (auto simp: prepare_entry_def Let_def split: option.splits)

lemma store_structured_up:
  assumes "key e \<noteq> []" "s_state (structured c) = LeafUp"
  shows "structured (snd (store env e c))
           = (structured c)\<lparr>rows := upsert (prepare_entry env e) (rows (structured c))\<rparr>"
  using assms
  by (simp add: store_def Let_def structured_store_def prepare_entry_fields)

lemma nodes_semantic_store:
  "nodes (snd (semantic_store e M)) = nodes M \<or> nodes (snd (semantic_store e M)) = upsert e (nodes M)"
  by (auto simp: semantic_store_def split: option.splits leaf_state.splits)

lemma keys_unique_semantic_store:
  "keys_unique (nodes M) \<Longrightarrow> keys_unique (nodes (snd (semantic_store e M)))"
  using nodes_semantic_store [of e M] by (auto simp: keys_unique_upsert)

lemma semantic_of_store:
  "semantic (snd (store env e c)) = snd (semantic_store (prepare_entry env e) (semantic c))"
  by (simp add: store_def Let_def)

lemma structured_store_ok_iff:
  "\<not> isl (structured_store e S) \<longleftrightarrow> namespace e \<noteq> [] \<and> key e \<noteq> [] \<and> s_state S = LeafUp"
  by (cases "s_state S") (simp_all add: structured_store_def)

lemma store_s_state: "s_state (structured (snd (store env e c))) = s_state (structured c)"
  by (cases "s_state (structured c)") (simp_all add: store_def Let_def structured_store_def)

lemma store_ok_iff:
  "overall_success (fst (store env e c)) \<longleftrightarrow> key e \<noteq> [] \<and> s_state (structured c) = LeafUp"
  by (simp add: overall_success_def store_def Let_def structured_store_ok_iff prepare_entry_fields)

text \<open>
  Claim C1.  Two calls of \<open>store\<close> with the same \<open>(namespace, key)\<close> pair, the second
  of which succeeds, leave exactly one entry under that pair in the structured store;
  that entry bears the content, the vector, the tags and \<open>updatedAt\<close> of the second
  call, and the second call adds no entry to the store (replacement, not duplication).
  The semantic index holds at most one entry under the pair.  Both stores hold at most
  one entry per pair before the calls, which \<open>store\<close> preserves.
\<close>

theorem store_twice_upsert:
  assumes same: "namespace e2 = namespace e1" "key e2 = key e1"
    and ok: "overall_success (fst (store env e2 (snd (store env e1 c))))"
    and inv: "keys_unique (rows (structured c))" "keys_unique (nodes (semantic c))"
  shows "length (filter (\<lambda>x. namespace x = namespace (prepare_entry env e2) \<and> key x = key e2)
            (rows (structured (snd (store env e2 (snd (store env e1 c))))))) = 1
       \<and> (\<exists>x. getByKey (namespace (prepare_entry env e2)) (key e2)
                 (structured (snd (store env e2 (snd (store env e1 c))))) = Some x
              \<and> content x = content e2 \<and> vector x = vector (prepare_entry env e2)
              \<and> tags x = tags e2 \<and> updatedAt x = updatedAt e2)
       \<and> length (rows (structured (snd (store env e2 (snd (store env e1 c))))))
           = length (rows (structured (snd (store env e1 c))))
       \<and> length (filter (\<lambda>x. namespace x = namespace (prepare_entry env e2) \<and> key x = key e2)
            (nodes (semantic (snd (store env e2 (snd (store env e1 c))))))) \<le> 1"
proof -
  let ?c1 = "snd (store env e1 c)"
  let ?c2 = "snd (store env e2 ?c1)"
  let ?p1 = "prepare_entry env e1"
  let ?p2 = "prepare_entry env e2"
  let ?rows1 = "upsert ?p1 (rows (structured c))"
  let ?rows2 = "upsert ?p2 ?rows1"
  from ok have key2: "key e2 \<noteq> []" and up1: "s_state (structured ?c1) = LeafUp"
    by (simp_all add: store_ok_iff)
  from up1 have up: "s_state (structured c) = LeafUp" by (simp add: store_s_state)
  from key2 same have key: "key e1 \<noteq> []" by simp
  have s1: "structured ?c1 = (structured c)\<lparr>rows := ?rows1\<rparr>"
    using store_structured_up [OF key up] .
  have rows2: "rows (structured ?c2) = ?rows2"
    using store_structured_up [OF key2 up1, of env] s1 by simp
  have "keys_unique ?rows2"
    using inv(1) by (simp add: keys_unique_upsert)
  then have d2: "distinct (map identity ?rows2)" by (simp add: keys_unique_def)
  have "length (filter (\<lambda>x. identity x = identity ?p2) ?rows2) = 1"
    using count_distinct_one [OF d2 identity_in_upsert] .
  then have one: "length (filter (\<lambda>x. namespace x = namespace ?p2 \<and> key x = key e2) ?rows2) = 1"
    by (simp add: identity_def prepare_entry_fields)
  from find_upsert [of ?p2 ?rows1]
  have got: "\<exists>x. getByKey (namespace ?p2) (key e2) (structured ?c2) = Some x
              \<and> content x = content e2 \<and> vector x = vector ?p2
              \<and> tags x = tags e2 \<and> updatedAt x = updatedAt e2"
    by (simp add: getByKey_def rows2 prepare_entry_fields)
  have "identity ?p2 = identity ?p1"
    using same by (simp add: identity_def prepare_entry_fields prepare_entry_namespace)
  then have "identity ?p2 \<in> set (map identity ?rows1)"
    using identity_in_upsert [of ?p1 "rows (structured c)"] by simp
  then have "map identity ?rows2 = map identity ?rows1"
    by (simp only: map_identity_upsert if_True)
  then have "length (map identity ?rows2) = length (map identity ?rows1)"
    by (rule arg_cong)
  then have same_len: "length (rows (structured ?c2)) = length (rows (structured ?c1))"
    by (simp add: rows2 s1)
  have "keys_unique (nodes (semantic ?c1))"
    using inv(2) by (simp add: semantic_of_store keys_unique_semantic_store)
  then have "keys_unique (nodes (semantic ?c2))"
    by (simp add: semantic_of_store keys_unique_semantic_store)
  then have "distinct (map identity (nodes (semantic ?c2)))"
    by (simp add: keys_unique_def)
  from count_distinct_le_one [OF this, of "identity ?p2"]
  have sem: "length (filter (\<lambda>x. namespace x = namespace ?p2 \<and> key x = key e2)
               (nodes (semantic ?c2))) \<le> 1"
    by (simp add: identity_def prepare_entry_fields)
  from one got same_len sem rows2 show ?thesis by simp
qed

theorem store_twice_upsert_witness:
  "namespace (example_entry ''m2'' ''A'' ''k'' ''second'' (Some [0, 1]) 2)
       = namespace (example_entry ''m1'' ''A'' ''k'' ''first'' (Some [1, 0]) 1)
   \<and> key (example_entry ''m2'' ''A'' ''k'' ''second'' (Some [0, 1]) 2)
       = key (example_entry ''m1'' ''A'' ''k'' ''first'' (Some [1, 0]) 1)
   \<and> overall_success (fst (store example_env (example_entry ''m2'' ''A'' ''k'' ''second'' (Some [0, 1]) 2)
        (snd (store example_env (example_entry ''m1'' ''A'' ''k'' ''first'' (Some [1, 0]) 1)
           example_coordinator))))
   \<and> keys_unique (rows (structured example_coordinator))
   \<and> keys_unique (nodes (semantic example_coordinator))
   \<and> rows (structured (snd (store example_env (example_entry ''m1'' ''A'' ''k'' ''first'' (Some [1, 0]) 1)
           example_coordinator)))
     = [\<lparr> entry_id = ''m1'', namespace = ''A'', key = ''k'', content = ''first'',
          vector = Some [1, 0], tags = [], createdAt = 1, updatedAt = 1, ttl = None \<rparr>]
   \<and> rows (structured (snd (store example_env (example_entry ''m2'' ''A'' ''k'' ''second'' (Some [0, 1]) 2)
        (snd (store example_env (example_entry ''m1'' ''A'' ''k'' ''first'' (Some [1, 0]) 1)
           example_coordinator)))))
     = [\<lparr> entry_id = ''m1'', namespace = ''A'', key = ''k'', content = ''second'',
          vector = Some [0, 1], tags = [], createdAt = 1, updatedAt = 2, ttl = None \<rparr>]"
  using store_twice_upsert [of "example_entry ''m2'' ''A'' ''k'' ''second'' (Some [0, 1]) 2"
      "example_entry ''m1'' ''A'' ''k'' ''first'' (Some [1, 0]) 1" example_env example_coordinator]
  by (simp add: example_entry_def example_coordinator_def example_env_def keys_unique_def
      overall_success_def store_def Let_def prepare_entry_def structured_store_def
      semantic_store_def same_identity_def identity_def replace_fields_def)

lemma example_state_eq:
  "example_state =
     \<lparr> structured = \<lparr> rows = [example_entry ''m1'' ''A'' ''k1'' ''alpha'' (Some [1, 0]) 1,
                               example_entry ''m2'' ''A'' ''k2'' ''beta'' (Some [0, 1]) 2,
                               example_entry ''m3'' ''A'' ''k3'' ''gamma'' None 3,
                               example_entry ''m4'' ''B'' ''k1'' ''delta'' (Some [1, 0]) 4],
                       s_state = LeafUp \<rparr>,
       semantic = \<lparr> nodes = [example_entry ''m1'' ''A'' ''k1'' ''alpha'' (Some [1, 0]) 1,
                             example_entry ''m2'' ''A'' ''k2'' ''beta'' (Some [0, 1]) 2,
                             example_entry ''m4'' ''B'' ''k1'' ''delta'' (Some [1, 0]) 4],
                    m_state = LeafUp, cache = [] \<rparr>,
       options = \<lparr> semanticThreshold = 7 / 10, cacheSize = 2, cacheTTLms = 1000 \<rparr>,
       structured_only = [(''A'', ''k3'')] \<rparr>"
  by (simp add: example_state_def example_entry_def example_coordinator_def example_env_def
      store_def Let_def prepare_entry_def structured_store_def semantic_store_def
      same_identity_def identity_def replace_fields_def)

lemmas example_simps =
  example_state_eq example_query_def example_entry_def example_env_def
  queryHybrid_def structured_hits_def semantic_hits_def queryStructured_def querySemantic_def
  coordinator_queryStructured_def coordinator_querySemantic_def
  cache_lookup_def search_def resolve_query_def scored_def reported_similarity_def
  unit_interval_def rank_desc_def prune_def
  matches_filter_def in_namespace_def resolve_namespace_def hit_id_def Let_def

subsection \<open>Ranking, deduplication and the merge of a hybrid query\<close>

lemma dedupe_ids: "hit_id ` set (dedupe_by_id seen hs) = hit_id ` set hs - seen"
  by (induction hs arbitrary: seen) auto

lemma dedupe_subset: "set (dedupe_by_id seen hs) \<subseteq> set hs"
  by (induction hs arbitrary: seen) auto


lemma dedupe_append:
  "dedupe_by_id seen (xs @ ys) = dedupe_by_id seen xs @ dedupe_by_id (seen \<union> hit_id ` set xs) ys"
proof (induction xs arbitrary: seen)
  case Nil
  then show ?case by simp
next
  case (Cons h xs)
  show ?case
  proof (cases "hit_id h \<in> seen")
    case True
    then have "seen \<union> hit_id ` set (h # xs) = seen \<union> hit_id ` set xs" by auto
    with True Cons show ?thesis by simp
  next
    case False
    have "insert (hit_id h) seen \<union> hit_id ` set xs = seen \<union> hit_id ` set (h # xs)" by auto
    with False Cons [of "insert (hit_id h) seen"] show ?thesis by simp
  qed
qed


lemma set_rank_desc: "set (rank_desc hs) = set hs"
  by (simp add: rank_desc_def)

lemma length_rank_desc: "length (rank_desc hs) = length hs"
  by (simp add: rank_desc_def)

lemma ranked_rank_desc: "sorted_wrt (\<lambda>a b. snd b \<le> snd a) (rank_desc hs)"
proof -
  have "sorted (map (\<lambda>h. - snd h) (rank_desc hs))"
    by (simp add: rank_desc_def)
  then show ?thesis
    by (simp add: sorted_map sorted_wrt_iff_nth_less)
qed

lemma distinct_ids_rank_desc:
  "distinct (map hit_id hs) \<Longrightarrow> distinct (map hit_id (rank_desc hs))"
proof -
  assume "distinct (map hit_id hs)"
  then have "card (set (map hit_id hs)) = length hs"
    using distinct_card [of "map hit_id hs"] by simp
  then have "card (set (map hit_id (rank_desc hs))) = length (map hit_id (rank_desc hs))"
    by (simp add: set_rank_desc length_rank_desc)
  then show ?thesis by (rule card_distinct)
qed






lemma union_scores:
  assumes "h \<in> set (combine_union S M)"
  shows "h \<in> set M \<or> (hit_id h \<notin> hit_id ` set M \<and> snd h = 1 \<and> fst h \<in> set S)"
proof -
  from assms have "h \<in> set (dedupe_by_id {} M) \<or> h \<in> set (dedupe_by_id (hit_id ` set M) (map (\<lambda>e. (e, 1)) S))"
    by (simp add: combine_union_def set_rank_desc dedupe_append)
  then show ?thesis
  proof
    assume "h \<in> set (dedupe_by_id {} M)"
    then show ?thesis using dedupe_subset by blast
  next
    assume a: "h \<in> set (dedupe_by_id (hit_id ` set M) (map (\<lambda>e. (e, 1)) S))"
    then have "hit_id h \<in> hit_id ` set (map (\<lambda>e. (e, 1)) S) - hit_id ` set M"
      using dedupe_ids [of "hit_id ` set M" "map (\<lambda>e. (e, 1)) S"] by blast
    moreover from a have "h \<in> set (map (\<lambda>e. (e, 1)) S)"
      using dedupe_subset by blast
    ultimately show ?thesis by auto
  qed
qed





lemma set_prune: "set (prune t hs) \<subseteq> set hs"
  by (auto simp: prune_def)

subsection \<open>The contract of the semantic query\<close>


lemma scored_member:
  assumes "h \<in> set (scored env v e)"
  shows "fst h = e \<and> 0 \<le> snd h \<and> snd h \<le> 1"
  using assms
  by (auto simp: scored_def reported_similarity_def unit_interval_def split: option.splits)

lemma search_members:
  assumes "h \<in> set (search env q ns)"
  shows "q_threshold q \<le> snd h
       \<and> in_namespace (q_namespace q) (q_crossNamespace q) (fst h)
       \<and> fst h \<in> set ns
       \<and> 0 \<le> snd h \<and> snd h \<le> 1"
proof (cases "resolve_query env (q_input q)")
  case None
  with assms show ?thesis by (simp add: search_def)
next
  case (Some v)
  let ?cands = "filter (\<lambda>e. reaches env v e \<and> in_namespace (q_namespace q) (q_crossNamespace q) e) ns"
  let ?X = "filter (\<lambda>h. q_threshold q \<le> snd h) (concat (map (scored env v) ?cands))"
  from assms Some have "h \<in> set (take (q_k q) (rank_desc ?X))"
    by (simp add: search_def)
  then have "h \<in> set (rank_desc ?X)" by (rule in_set_takeD)
  then have hX: "h \<in> set ?X" by (simp only: set_rank_desc)
  then have thr: "q_threshold q \<le> snd h" by simp
  from hX obtain e where e: "e \<in> set ?cands" "h \<in> set (scored env v e)" by auto
  from scored_member [OF e(2)] e(1) thr show ?thesis by auto
qed

lemma search_ok: "answer_ok q (search env q ns)"
proof -
  have sorted: "sorted_wrt (\<lambda>a b. snd b \<le> snd a) (search env q ns)"
  proof (cases "resolve_query env (q_input q)")
    case None
    then show ?thesis by (simp add: search_def)
  next
    case (Some v)
    then show ?thesis
      by (simp add: search_def sorted_wrt_take ranked_rank_desc)
  qed
  have len: "length (search env q ns) \<le> q_k q"
    by (cases "resolve_query env (q_input q)") (simp_all add: search_def)
  have "\<forall>h \<in> set (search env q ns).
          0 \<le> snd h \<and> snd h \<le> 1 \<and> q_threshold q \<le> snd h
          \<and> in_namespace (q_namespace q) (q_crossNamespace q) (fst h)"
  proof
    fix h assume "h \<in> set (search env q ns)"
    from search_members [OF this] show
      "0 \<le> snd h \<and> snd h \<le> 1 \<and> q_threshold q \<le> snd h
          \<and> in_namespace (q_namespace q) (q_crossNamespace q) (fst h)"
      by simp
  qed
  with sorted len show ?thesis
    by (simp add: answer_ok_def list_all_iff)
qed

lemma cache_lookup_member:
  assumes "cache_lookup ttl_ms now q cs = Some c"
  shows "c \<in> set cs \<and> cached_query c = q"
  using assms by (auto simp: cache_lookup_def find_Some_iff)


lemma querySemantic_cache_ok:
  assumes "cache_ok (cache M)"
  shows "cache_ok (cache (snd (querySemantic env cfg now q M)))"
proof (cases "m_state M = LeafDown")
  case True
  with assms show ?thesis by (simp add: querySemantic_def)
next
  case False
  show ?thesis
  proof (cases "cache_lookup (cacheTTLms cfg) now q (cache M)")
    case None
    let ?new = "\<lparr> cached_query = q, cached_at = now, cached_hits = search env q (nodes M) \<rparr>"
    have "cache_ok (?new # filter (\<lambda>c. cached_query c \<noteq> q) (cache M))"
      using assms search_ok [of q env "nodes M"]
      by (auto simp: cache_ok_def list_all_iff)
    then have "cache_ok (take (cacheSize cfg) (?new # filter (\<lambda>c. cached_query c \<noteq> q) (cache M)))"
      unfolding cache_ok_def list_all_iff using in_set_takeD by fast
    with False None show ?thesis
      by (simp add: querySemantic_def Let_def)
  next
    case (Some c)
    from cache_lookup_member [OF Some] have "c \<in> set (cache M)" by simp
    with assms have "cache_ok (c # remove1 c (cache M))"
      by (auto simp: cache_ok_def list_all_iff dest: notin_set_remove1)
    with False Some show ?thesis
      by (simp add: querySemantic_def)
  qed
qed



subsection \<open>Namespace isolation\<close>

lemma queryStructured_scope:
  "e \<in> set (queryStructured f S) \<Longrightarrow> in_namespace (f_namespace f) (f_crossNamespace f) e"
  by (auto simp: queryStructured_def matches_filter_def split: if_splits)

lemma querySemantic_scope:
  assumes "cache_ok (cache M)" "h \<in> set (fst (querySemantic env cfg now q M))"
  shows "in_namespace (q_namespace q) (q_crossNamespace q) (fst h)"
proof (cases "m_state M = LeafDown")
  case True
  with assms show ?thesis by (simp add: querySemantic_def)
next
  case False
  show ?thesis
  proof (cases "cache_lookup (cacheTTLms cfg) now q (cache M)")
    case None
    with False assms(2) have "h \<in> set (search env q (nodes M))"
      by (simp add: querySemantic_def Let_def)
    from search_members [OF this] show ?thesis by simp
  next
    case (Some c)
    from cache_lookup_member [OF Some] assms(1) have "answer_ok q (cached_hits c)"
      by (auto simp: cache_ok_def list_all_iff)
    moreover from False Some assms(2) have "h \<in> set (cached_hits c)"
      by (simp add: querySemantic_def)
    ultimately show ?thesis
      by (auto simp: answer_ok_def list_all_iff)
  qed
qed

lemma semantic_hits_scope:
  assumes "cache_ok (cache (semantic c))" "h \<in> set (semantic_hits env now hq c)"
  shows "in_namespace (q_namespace (semanticQuery hq)) (q_crossNamespace (semanticQuery hq)) (fst h)"
proof -
  from assms(2) have "h \<in> set (fst (querySemantic env (options c) now (semanticQuery hq) (semantic c)))"
    using set_prune by (auto simp: semantic_hits_def)
  from querySemantic_scope [OF assms(1) this] show ?thesis .
qed

lemma structured_first_members:
  "h \<in> set (combine_structured_first env q S) \<Longrightarrow> fst h \<in> set S"
  by (auto simp: combine_structured_first_def set_rank_desc split: option.splits)

lemma queryHybrid_scope:
  assumes "cache_ok (cache (semantic c))" "h \<in> set (fst (queryHybrid env now hq c))"
  shows "in_namespace (f_namespace (structuredFilter hq)) (f_crossNamespace (structuredFilter hq)) (fst h)
       \<or> in_namespace (q_namespace (semanticQuery hq)) (q_crossNamespace (semanticQuery hq)) (fst h)"
proof (cases "strategy hq")
  case Union
  with assms(2) have "h \<in> set (combine_union (structured_hits hq c) (semantic_hits env now hq c))"
    by (simp add: queryHybrid_def Let_def)
  from union_scores [OF this] consider
      (sem) "h \<in> set (semantic_hits env now hq c)"
    | (str) "fst h \<in> set (structured_hits hq c)"
    by blast
  then show ?thesis
  proof cases
    case sem
    from semantic_hits_scope [OF assms(1) this] show ?thesis by simp
  next
    case str
    then have "fst h \<in> set (queryStructured (structuredFilter hq) (structured c))"
      by (simp add: structured_hits_def)
    from queryStructured_scope [OF this] show ?thesis by simp
  qed
next
  case Intersection
  with assms(2) have "h \<in> set (semantic_hits env now hq c)"
    by (simp add: queryHybrid_def Let_def combine_intersection_def)
  from semantic_hits_scope [OF assms(1) this] show ?thesis by simp
next
  case SemanticFirst
  with assms(2) have "h \<in> set (semantic_hits env now hq c)"
    by (simp add: queryHybrid_def Let_def combine_semantic_first_def)
  from semantic_hits_scope [OF assms(1) this] show ?thesis by simp
next
  case StructuredFirst
  with assms(2) have "h \<in> set (combine_structured_first env (semanticQuery hq) (structured_hits hq c))"
    by (simp add: queryHybrid_def Let_def)
  from structured_first_members [OF this]
  have "fst h \<in> set (queryStructured (structuredFilter hq) (structured c))"
    by (simp add: structured_hits_def)
  from queryStructured_scope [OF this] show ?thesis by simp
qed

text \<open>
  Claim C4.  Every entry that \<open>queryStructured\<close> returns lies in the namespace the filter
  names, unless the filter carries the cross-namespace wildcard flag; so a query for
  namespace \<open>A\<close> returns no entry of a different namespace \<open>B\<close>.  The same holds for
  \<open>querySemantic\<close>, and every result of \<open>queryHybrid\<close> lies in the namespace one of its
  two legs names, unless a leg carries the flag.
\<close>

theorem namespace_isolation:
  assumes "cache_ok (cache (semantic c))"
  shows "(\<forall>e \<in> set (coordinator_queryStructured f c).
            f_crossNamespace f \<or> namespace e = resolve_namespace (f_namespace f))
       \<and> (A \<noteq> [] \<and> A \<noteq> B \<and> f_namespace f = Some A \<and> \<not> f_crossNamespace f
            \<longrightarrow> (\<forall>e \<in> set (coordinator_queryStructured f c). namespace e \<noteq> B))
       \<and> (\<forall>h \<in> set (fst (coordinator_querySemantic env now q c)).
            q_crossNamespace q \<or> namespace (fst h) = resolve_namespace (q_namespace q))
       \<and> (\<forall>h \<in> set (fst (queryHybrid env now hq c)).
            f_crossNamespace (structuredFilter hq) \<or> q_crossNamespace (semanticQuery hq)
            \<or> namespace (fst h) = resolve_namespace (f_namespace (structuredFilter hq))
            \<or> namespace (fst h) = resolve_namespace (q_namespace (semanticQuery hq)))"
proof -
  have 1: "\<forall>e \<in> set (coordinator_queryStructured f c).
            f_crossNamespace f \<or> namespace e = resolve_namespace (f_namespace f)"
    using queryStructured_scope by (auto simp: coordinator_queryStructured_def in_namespace_def)
  then have 2: "A \<noteq> [] \<and> A \<noteq> B \<and> f_namespace f = Some A \<and> \<not> f_crossNamespace f
            \<longrightarrow> (\<forall>e \<in> set (coordinator_queryStructured f c). namespace e \<noteq> B)"
    by (auto simp: resolve_namespace_def)
  have 3: "\<forall>h \<in> set (fst (coordinator_querySemantic env now q c)).
            q_crossNamespace q \<or> namespace (fst h) = resolve_namespace (q_namespace q)"
  proof
    fix h assume "h \<in> set (fst (coordinator_querySemantic env now q c))"
    then have "h \<in> set (fst (querySemantic env (options c) now q (semantic c)))"
      by (simp add: coordinator_querySemantic_def Let_def)
    from querySemantic_scope [OF assms this]
    show "q_crossNamespace q \<or> namespace (fst h) = resolve_namespace (q_namespace q)"
      by (simp add: in_namespace_def)
  qed
  have 4: "\<forall>h \<in> set (fst (queryHybrid env now hq c)).
            f_crossNamespace (structuredFilter hq) \<or> q_crossNamespace (semanticQuery hq)
            \<or> namespace (fst h) = resolve_namespace (f_namespace (structuredFilter hq))
            \<or> namespace (fst h) = resolve_namespace (q_namespace (semanticQuery hq))"
  proof
    fix h assume "h \<in> set (fst (queryHybrid env now hq c))"
    from queryHybrid_scope [OF assms this]
    show "f_crossNamespace (structuredFilter hq) \<or> q_crossNamespace (semanticQuery hq)
            \<or> namespace (fst h) = resolve_namespace (f_namespace (structuredFilter hq))
            \<or> namespace (fst h) = resolve_namespace (q_namespace (semanticQuery hq))"
      by (auto simp: in_namespace_def)
  qed
  from 1 2 3 4 show ?thesis by (intro conjI)
qed

theorem namespace_isolation_witness:
  "cache_ok (cache (semantic example_state))
   \<and> ''A'' \<noteq> [] \<and> ''A'' \<noteq> ''B''
   \<and> f_namespace (structuredFilter (example_query Union)) = Some ''A''
   \<and> \<not> f_crossNamespace (structuredFilter (example_query Union))
   \<and> map namespace (rows (structured example_state)) = [''A'', ''A'', ''A'', ''B'']
   \<and> map namespace (coordinator_queryStructured (structuredFilter (example_query Union)) example_state)
      = [''A'', ''A'', ''A'']
   \<and> map (\<lambda>h. namespace (fst h))
        (fst (coordinator_querySemantic example_env 0 (semanticQuery (example_query Union)) example_state))
      = [''A'', ''A'']
   \<and> map (\<lambda>h. namespace (fst h))
        (fst (queryHybrid example_env 0 (example_query Union) example_state))
      = [''A'', ''A'', ''A'']"
  using namespace_isolation [of example_state "structuredFilter (example_query Union)" "''A''" "''B''"
      example_env 0 "semanticQuery (example_query Union)" "example_query Union"]
  by (simp add: example_simps cache_ok_def combine_union_def)

subsection \<open>Union and intersection of a hybrid query\<close>

text \<open>
  The ids of a leg are distinct when the leaf holds every id once per namespace and the
  leg is confined to one namespace.
\<close>

lemma distinct_map_Pair: "distinct (map (\<lambda>e. (a, g e)) xs) \<Longrightarrow> distinct (map g xs)"
  by (induction xs) auto

lemma ids_unique_filter_namespace:
  assumes "ids_unique es" "\<forall>e \<in> set (filter P es). namespace e = a"
  shows "distinct (map entry_id (filter P es))"
proof -
  from assms(1) have "distinct (map (\<lambda>e. (namespace e, entry_id e)) (filter P es))"
    by (simp add: ids_unique_def distinct_map_filter)
  moreover have "map (\<lambda>e. (namespace e, entry_id e)) (filter P es)
                   = map (\<lambda>e. (a, entry_id e)) (filter P es)"
    using assms(2) by (intro map_cong) auto
  ultimately show ?thesis
    using distinct_map_Pair [of a entry_id "filter P es"] by simp
qed


lemma hit_ids_scored:
  "map hit_id (concat (map (scored env v) es)) = map entry_id (filter (\<lambda>e. vector e \<noteq> None) es)"
  by (induction es) (auto simp: scored_def hit_id_def split: option.splits)

lemma search_distinct:
  assumes "ids_unique ns" "\<not> q_crossNamespace q"
  shows "distinct (map hit_id (search env q ns))"
proof (cases "resolve_query env (q_input q)")
  case None
  then show ?thesis by (simp add: search_def)
next
  case (Some v)
  let ?P = "\<lambda>e. reaches env v e \<and> in_namespace (q_namespace q) (q_crossNamespace q) e"
  let ?X = "filter (\<lambda>h. q_threshold q \<le> snd h) (concat (map (scored env v) (filter ?P ns)))"
  have "\<forall>e \<in> set (filter ?P ns). namespace e = resolve_namespace (q_namespace q)"
    using assms(2) by (auto simp: in_namespace_def)
  from ids_unique_filter_namespace [OF assms(1) this]
  have "distinct (map entry_id (filter (\<lambda>e. vector e \<noteq> None) (filter ?P ns)))"
    by (rule distinct_map_filter)
  then have "distinct (map hit_id (concat (map (scored env v) (filter ?P ns))))"
    by (simp only: hit_ids_scored)
  then have "distinct (map hit_id ?X)"
    by (rule distinct_map_filter)
  then have "distinct (map hit_id (rank_desc ?X))"
    by (rule distinct_ids_rank_desc)
  then have "distinct (take (q_k q) (map hit_id (rank_desc ?X)))"
    by (rule distinct_take)
  with Some show ?thesis
    by (simp add: search_def take_map)
qed


lemma querySemantic_cache_distinct:
  assumes "ids_unique (nodes M)" "cache_distinct (cache M)"
  shows "cache_distinct (cache (snd (querySemantic env cfg now q M)))"
proof (cases "m_state M = LeafDown")
  case True
  with assms show ?thesis by (simp add: querySemantic_def)
next
  case False
  show ?thesis
  proof (cases "cache_lookup (cacheTTLms cfg) now q (cache M)")
    case None
    let ?new = "\<lparr> cached_query = q, cached_at = now, cached_hits = search env q (nodes M) \<rparr>"
    have "q_crossNamespace q \<or> distinct (map hit_id (search env q (nodes M)))"
      using search_distinct [OF assms(1)] by blast
    then have "cache_distinct (?new # filter (\<lambda>c. cached_query c \<noteq> q) (cache M))"
      using assms(2) by (auto simp: cache_distinct_def list_all_iff)
    then have "cache_distinct (take (cacheSize cfg) (?new # filter (\<lambda>c. cached_query c \<noteq> q) (cache M)))"
      unfolding cache_distinct_def list_all_iff using in_set_takeD by fast
    with False None show ?thesis
      by (simp add: querySemantic_def Let_def)
  next
    case (Some c)
    from cache_lookup_member [OF Some] have "c \<in> set (cache M)" by simp
    with assms(2) have "cache_distinct (c # remove1 c (cache M))"
      by (auto simp: cache_distinct_def list_all_iff dest: notin_set_remove1)
    with False Some show ?thesis
      by (simp add: querySemantic_def)
  qed
qed


lemma map_ns_id_upsert:
  "map (\<lambda>x. (namespace x, entry_id x)) (upsert e es)
     = (if identity e \<in> identity ` set es then map (\<lambda>x. (namespace x, entry_id x)) es
        else map (\<lambda>x. (namespace x, entry_id x)) es @ [(namespace e, entry_id e)])"
  by (induction es) (auto simp: same_identity_def identity_def replace_fields_def)

lemma ids_unique_upsert:
  assumes "ids_unique es"
    and "identity e \<in> identity ` set es
         \<or> (namespace e, entry_id e) \<notin> (\<lambda>x. (namespace x, entry_id x)) ` set es"
  shows "ids_unique (upsert e es)"
  using assms by (auto simp: ids_unique_def map_ns_id_upsert)

text \<open>
  The invariants are met by the empty stores and kept by \<open>store\<close>, for an entry whose pair
  is stored already or whose id is new in its namespace, and by \<open>queryHybrid\<close>.
\<close>

lemma ids_unique_empty: "ids_unique []"
  by (simp add: ids_unique_def)

lemma rows_of_store:
  "rows (structured (snd (store env e c))) = rows (structured c)
   \<or> rows (structured (snd (store env e c))) = upsert (prepare_entry env e) (rows (structured c))"
  by (cases "s_state (structured c)") (auto simp: store_def Let_def structured_store_def)

lemma store_ids_unique_rows:
  assumes "ids_unique (rows (structured c))"
    and "identity (prepare_entry env e) \<in> identity ` set (rows (structured c))
         \<or> (namespace (prepare_entry env e), entry_id (prepare_entry env e))
             \<notin> (\<lambda>x. (namespace x, entry_id x)) ` set (rows (structured c))"
  shows "ids_unique (rows (structured (snd (store env e c))))"
  using rows_of_store [of env e c] ids_unique_upsert [OF assms] assms(1) by auto

lemma store_ids_unique_nodes:
  assumes "ids_unique (nodes (semantic c))"
    and "identity (prepare_entry env e) \<in> identity ` set (nodes (semantic c))
         \<or> (namespace (prepare_entry env e), entry_id (prepare_entry env e))
             \<notin> (\<lambda>x. (namespace x, entry_id x)) ` set (nodes (semantic c))"
  shows "ids_unique (nodes (semantic (snd (store env e c))))"
  using nodes_semantic_store [of "prepare_entry env e" "semantic c"]
    ids_unique_upsert [OF assms] assms(1)
  by (auto simp: semantic_of_store)

lemma store_cache: "cache (semantic (snd (store env e c))) = cache (semantic c)"
  by (auto simp: semantic_of_store semantic_store_def split: option.splits leaf_state.splits)

lemma queryHybrid_leaves:
  "structured (snd (queryHybrid env now hq c)) = structured c"
  "nodes (semantic (snd (queryHybrid env now hq c))) = nodes (semantic c)"
  by (auto simp: queryHybrid_def Let_def querySemantic_def split: option.splits)

lemma queryHybrid_cache_distinct:
  assumes "ids_unique (nodes (semantic c))" "cache_distinct (cache (semantic c))"
  shows "cache_distinct (cache (semantic (snd (queryHybrid env now hq c))))"
  using querySemantic_cache_distinct [OF assms] by (simp add: queryHybrid_def Let_def)

lemma upsert_fresh: "identity e \<notin> identity ` set es \<Longrightarrow> upsert e es = es @ [e]"
  by (induction es) (auto simp: same_identity_def)

lemma leaves_agree_empty:
  "rows (structured c) = [] \<Longrightarrow> nodes (semantic c) = [] \<Longrightarrow> cache (semantic c) = [] \<Longrightarrow> leaves_agree c"
  by (simp add: leaves_agree_def)

lemma store_fresh_leaves_agree:
  assumes "leaves_agree c"
    and fresh: "identity (prepare_entry env e) \<notin> identity ` set (rows (structured c))"
    and ok: "overall_success (fst (store env e c))"
  shows "leaves_agree (snd (store env e c))"
proof -
  let ?e = "prepare_entry env e"
  from ok have "key e \<noteq> []" "s_state (structured c) = LeafUp"
    by (simp_all add: store_ok_iff)
  from store_structured_up [OF this]
  have rows: "rows (structured (snd (store env e c))) = rows (structured c) @ [?e]"
    by (simp add: upsert_fresh [OF fresh])
  from assms(1) have sub: "set (nodes (semantic c)) \<subseteq> set (rows (structured c))"
    by (simp add: leaves_agree_def)
  with fresh have "identity ?e \<notin> identity ` set (nodes (semantic c))"
    by auto
  then have "upsert ?e (nodes (semantic c)) = nodes (semantic c) @ [?e]"
    by (rule upsert_fresh)
  with nodes_semantic_store [of ?e "semantic c"] sub
  have "set (nodes (semantic (snd (store env e c)))) \<subseteq> set (rows (structured c)) \<union> {?e}"
    by (auto simp: semantic_of_store)
  with assms(1) show ?thesis
    unfolding leaves_agree_def rows store_cache list_all_iff by (auto simp: image_subset_iff)
qed

lemma querySemantic_cache_all:
  assumes "list_all P (cache M)"
    and "P \<lparr> cached_query = q, cached_at = now, cached_hits = search env q (nodes M) \<rparr>"
  shows "list_all P (cache (snd (querySemantic env cfg now q M)))"
proof (cases "m_state M = LeafDown")
  case True
  with assms(1) show ?thesis by (simp add: querySemantic_def)
next
  case False
  show ?thesis
  proof (cases "cache_lookup (cacheTTLms cfg) now q (cache M)")
    case None
    let ?new = "\<lparr> cached_query = q, cached_at = now, cached_hits = search env q (nodes M) \<rparr>"
    have "set (take (cacheSize cfg) (?new # filter (\<lambda>c. cached_query c \<noteq> q) (cache M)))
            \<subseteq> insert ?new (set (cache M))"
      using set_take_subset [of "cacheSize cfg" "?new # filter (\<lambda>c. cached_query c \<noteq> q) (cache M)"]
      by auto
    with assms have "list_all P (take (cacheSize cfg) (?new # filter (\<lambda>c. cached_query c \<noteq> q) (cache M)))"
      unfolding list_all_iff by blast
    with False None show ?thesis
      by (simp add: querySemantic_def Let_def)
  next
    case (Some c)
    from cache_lookup_member [OF Some] have "c \<in> set (cache M)" by simp
    with set_remove1_subset [of c "cache M"] have "set (c # remove1 c (cache M)) \<subseteq> set (cache M)"
      by auto
    with assms(1) have "list_all P (c # remove1 c (cache M))"
      unfolding list_all_iff by blast
    with False Some show ?thesis
      by (simp add: querySemantic_def)
  qed
qed

lemma queryHybrid_leaves_agree:
  assumes "leaves_agree c"
  shows "leaves_agree (snd (queryHybrid env now hq c))"
proof -
  let ?q = "semanticQuery hq"
  let ?M = "semantic c"
  let ?P = "\<lambda>ce. fst ` set (cached_hits ce) \<subseteq> set (rows (structured c))"
  have "fst ` set (search env ?q (nodes ?M)) \<subseteq> set (nodes ?M)"
    using search_members by fastforce
  with assms have "?P \<lparr> cached_query = ?q, cached_at = now, cached_hits = search env ?q (nodes ?M) \<rparr>"
    by (simp add: leaves_agree_def) blast
  moreover from assms have "list_all ?P (cache ?M)"
    by (simp add: leaves_agree_def)
  ultimately have "list_all ?P (cache (snd (querySemantic env (options c) now ?q ?M)))"
    by (rule querySemantic_cache_all [rotated])
  with assms show ?thesis
    by (simp add: leaves_agree_def queryHybrid_leaves) (simp add: queryHybrid_def Let_def)
qed













subsection \<open>Dual write\<close>

lemma store_structuredOk:
  "structuredOk (fst (store env e c)) \<longleftrightarrow> \<not> isl (structured_store (prepare_entry env e) (structured c))"
  by (simp add: store_def Let_def)

lemma store_semanticOk:
  "semanticOk (fst (store env e c)) \<longleftrightarrow> fst (semantic_store (prepare_entry env e) (semantic c)) = Indexed"
  by (simp add: store_def Let_def)

lemma store_structured_written:
  "structured_store (prepare_entry env e) (structured c) = Inr S' \<Longrightarrow> structured (snd (store env e c)) = S'"
  by (simp add: store_def Let_def)

lemma store_flagged:
  assumes "\<not> isl (structured_store (prepare_entry env e) (structured c))"
    and "fst (semantic_store (prepare_entry env e) (semantic c)) \<noteq> Indexed"
  shows "identity (prepare_entry env e) \<in> set (structured_only (snd (store env e c)))"
  using assms by (simp add: store_def Let_def)

lemma semantic_store_no_vector: "vector e = None \<Longrightarrow> semantic_store e M = (Skipped, M)"
  by (simp add: semantic_store_def)

lemma prepare_entry_no_generator:
  "vector e = None \<Longrightarrow> embeddingGenerator env = None \<Longrightarrow> vector (prepare_entry env e) = None"
  by (simp add: prepare_entry_def Let_def)

lemma store_preserves_keys_unique:
  assumes "keys_unique (rows (structured c))"
  shows "keys_unique (rows (structured (snd (store env e c))))"
proof (cases "structured_store (prepare_entry env e) (structured c)")
  case (Inl err)
  with assms show ?thesis by (simp add: store_def Let_def)
next
  case (Inr S')
  then have "rows S' = upsert (prepare_entry env e) (rows (structured c))"
    by (auto simp: structured_store_def split: if_splits leaf_state.splits)
  with Inr assms show ?thesis
    by (simp add: store_structured_written keys_unique_upsert)
qed

lemma store_preserves_cache: "cache (semantic (snd (store env e c))) = cache (semantic c)"
  by (simp add: store_def Let_def semantic_store_def split: option.splits leaf_state.splits)

lemma queryHybrid_preserves_cache_ok:
  assumes "cache_ok (cache (semantic c))"
  shows "cache_ok (cache (semantic (snd (queryHybrid env now hq c))))"
  using querySemantic_cache_ok [OF assms, of env "options c" now "semanticQuery hq"]
  by (simp add: queryHybrid_def Let_def)

text \<open>
  Claim C6.  \<open>HybridCoordinator.store\<close> succeeds as a whole exactly when the structured
  write succeeds.  When the structured write succeeds and the semantic write does not
  index the entry, the call still succeeds, reports \<open>semanticOk = false\<close> and flags the
  entry \<open>structured_only\<close>; the structured store holds the written state.
  \<open>SemanticStore.store\<close> of an entry without a vector returns \<open>Skipped\<close> and changes
  nothing.  Without an embedding generator an entry without a vector is stored with
  \<open>{structuredOk: true, semanticOk: false}\<close>.
\<close>

theorem store_success_iff_structured:
  "(overall_success (fst (store env e c))
      \<longleftrightarrow> \<not> isl (structured_store (prepare_entry env e) (structured c)))
   \<and> (\<not> isl (structured_store (prepare_entry env e) (structured c))
        \<and> fst (semantic_store (prepare_entry env e) (semantic c)) \<noteq> Indexed
      \<longrightarrow> overall_success (fst (store env e c)) \<and> \<not> semanticOk (fst (store env e c))
          \<and> identity (prepare_entry env e) \<in> set (structured_only (snd (store env e c))))
   \<and> (structured_store (prepare_entry env e) (structured c) = Inr S'
      \<longrightarrow> structured (snd (store env e c)) = S')
   \<and> (vector e = None \<longrightarrow> semantic_store e M = (Skipped, M))
   \<and> (vector e = None \<and> embeddingGenerator env = None
        \<and> \<not> isl (structured_store (prepare_entry env e) (structured c))
      \<longrightarrow> fst (store env e c) = \<lparr> structuredOk = True, semanticOk = False \<rparr>
          \<and> semantic (snd (store env e c)) = semantic c)"
proof -
  have 1: "overall_success (fst (store env e c))
      \<longleftrightarrow> \<not> isl (structured_store (prepare_entry env e) (structured c))"
    by (simp add: overall_success_def store_structuredOk)
  have 2: "\<not> isl (structured_store (prepare_entry env e) (structured c))
        \<and> fst (semantic_store (prepare_entry env e) (semantic c)) \<noteq> Indexed
      \<longrightarrow> overall_success (fst (store env e c)) \<and> \<not> semanticOk (fst (store env e c))
          \<and> identity (prepare_entry env e) \<in> set (structured_only (snd (store env e c)))"
    using store_flagged [of env e c] by (simp add: 1 store_semanticOk)
  have 3: "structured_store (prepare_entry env e) (structured c) = Inr S'
      \<longrightarrow> structured (snd (store env e c)) = S'"
    using store_structured_written [of env e c S'] by blast
  have 4: "vector e = None \<longrightarrow> semantic_store e M = (Skipped, M)"
    by (simp add: semantic_store_no_vector)
  have 5: "vector e = None \<and> embeddingGenerator env = None
        \<and> \<not> isl (structured_store (prepare_entry env e) (structured c))
      \<longrightarrow> fst (store env e c) = \<lparr> structuredOk = True, semanticOk = False \<rparr>
          \<and> semantic (snd (store env e c)) = semantic c"
  proof (intro impI, elim conjE)
    assume a: "vector e = None" "embeddingGenerator env = None"
      and b: "\<not> isl (structured_store (prepare_entry env e) (structured c))"
    from a have "vector (prepare_entry env e) = None" by (rule prepare_entry_no_generator)
    then have "semantic_store (prepare_entry env e) (semantic c) = (Skipped, semantic c)"
      by (rule semantic_store_no_vector)
    with b show "fst (store env e c) = \<lparr> structuredOk = True, semanticOk = False \<rparr>
          \<and> semantic (snd (store env e c)) = semantic c"
      by (simp add: store_def Let_def)
  qed
  from 1 2 3 4 5 show ?thesis by (intro conjI)
qed

theorem store_success_iff_structured_witness:
  "vector (example_entry ''m3'' ''A'' ''k3'' ''gamma'' None 3) = None
   \<and> embeddingGenerator example_env = None
   \<and> structured_store (prepare_entry example_env (example_entry ''m3'' ''A'' ''k3'' ''gamma'' None 3))
        (structured example_coordinator)
      = Inr \<lparr> rows = [example_entry ''m3'' ''A'' ''k3'' ''gamma'' None 3], s_state = LeafUp \<rparr>
   \<and> fst (semantic_store (prepare_entry example_env (example_entry ''m3'' ''A'' ''k3'' ''gamma'' None 3))
        (semantic example_coordinator)) = Skipped
   \<and> fst (store example_env (example_entry ''m3'' ''A'' ''k3'' ''gamma'' None 3) example_coordinator)
      = \<lparr> structuredOk = True, semanticOk = False \<rparr>
   \<and> structured_only (snd (store example_env (example_entry ''m3'' ''A'' ''k3'' ''gamma'' None 3)
        example_coordinator)) = [(''A'', ''k3'')]"
  using store_success_iff_structured [of example_env "example_entry ''m3'' ''A'' ''k3'' ''gamma'' None 3"
      example_coordinator "\<lparr> rows = [example_entry ''m3'' ''A'' ''k3'' ''gamma'' None 3], s_state = LeafUp \<rparr>"
      "semantic example_coordinator"]
  by (simp add: example_entry_def example_coordinator_def example_env_def
      store_def Let_def prepare_entry_def structured_store_def semantic_store_def
      same_identity_def identity_def replace_fields_def)

end
